theory Spec2Isabelle
  imports Main "HOL-Library.AList"
begin

section \<open>Python values and exceptions\<close>

text \<open>
  The integration is dynamically typed: an entity state is whatever the hub assigned to it.
  The values that occur are \<^verbatim>\<open>None\<close>, booleans, integers, strings and time stamps
  (\<^verbatim>\<open>utcnow()\<close>).
\<close>

datatype pyval = VNone | VBool bool | VInt int | VStr string | VTime int

text \<open>
  Exceptions are identified by their class. \<open>ClientResponseError\<close>, \<open>ServerTimeoutError\<close>
  and \<open>TooManyRedirects\<close> are the three classes imported from aiohttp; \<open>Exception\<close>
  stands for an instance of any other subclass of Python's \<^verbatim>\<open>Exception\<close>.
\<close>

datatype exc =
    ClientResponseError
  | ServerTimeoutError
  | TooManyRedirects
  | ValueError
  | TypeError
  | KeyError
  | UnboundLocalError
  | Exception

text \<open>Truth value testing (\<^verbatim>\<open>if state:\<close>).\<close>

fun truthy :: "pyval \<Rightarrow> bool" where
  "truthy VNone = False"
| "truthy (VBool b) = b"
| "truthy (VInt n) = (n \<noteq> 0)"
| "truthy (VStr s) = (s \<noteq> [])"
| "truthy (VTime t) = True"

text \<open>
  \<^verbatim>\<open>int(x)\<close>. For a string Python strips white space, reads an optional sign and then
  decimal digits, where single underscores may separate digits; anything else raises
  \<^verbatim>\<open>ValueError\<close>. A string is the list of the bytes of its UTF-8 encoding. In a string
  of ASCII characters the white space is the blank and the characters 9 to 13, and the
  digits are \<open>0\<close> to \<open>9\<close>: that is \<open>parse_int\<close>. In a string with a character outside
  ASCII, the Unicode character database decides which characters are decimal digits and
  which are white space; that table is not part of the sources, so what \<^verbatim>\<open>int\<close> makes of
  such a string is a parameter \<open>uni\<close> of the model (\<open>None\<close> for \<^verbatim>\<open>ValueError\<close>).
\<close>

definition is_space :: "char \<Rightarrow> bool" where
  "is_space ch = (ch \<in> set [CHR '' '', CHR 0x09, CHR 0x0A, CHR 0x0B, CHR 0x0C, CHR 0x0D])"

definition is_ascii :: "string \<Rightarrow> bool" where
  "is_ascii s = list_all (\<lambda>ch. of_char ch < (128 :: nat)) s"

definition strip :: "string \<Rightarrow> string" where
  "strip s = rev (dropWhile is_space (rev (dropWhile is_space s)))"

definition is_digit :: "char \<Rightarrow> bool" where
  "is_digit ch = (ch \<in> set ''0123456789'')"

definition digit_val :: "char \<Rightarrow> nat" where
  "digit_val ch = of_char ch - 48"

fun digits_val :: "string \<Rightarrow> nat \<Rightarrow> nat option" where
  "digits_val [] acc = Some acc"
| "digits_val (ch # cs) acc =
     (if is_digit ch then digits_val cs (10 * acc + digit_val ch)
      else if ch = CHR ''_'' then
        (case cs of
           [] \<Rightarrow> None
         | d # ds \<Rightarrow> if is_digit d then digits_val cs acc else None)
      else None)"

definition parse_nat :: "string \<Rightarrow> nat option" where
  "parse_nat s =
     (case s of
        [] \<Rightarrow> None
      | ch # cs \<Rightarrow> if is_digit ch then digits_val s 0 else None)"

definition parse_int :: "string \<Rightarrow> int option" where
  "parse_int s =
     (case strip s of
        [] \<Rightarrow> None
      | ch # cs \<Rightarrow>
          if ch = CHR ''-'' then map_option (\<lambda>n. - int n) (parse_nat cs)
          else if ch = CHR ''+'' then map_option int (parse_nat cs)
          else map_option int (parse_nat (ch # cs)))"

fun py_int :: "(string \<Rightarrow> int option) \<Rightarrow> pyval \<Rightarrow> exc + int" where
  "py_int uni VNone = Inl TypeError"
| "py_int uni (VBool b) = Inr (if b then 1 else 0)"
| "py_int uni (VInt n) = Inr n"
| "py_int uni (VStr s) =
     (case (if is_ascii s then parse_int s else uni s) of
        None \<Rightarrow> Inl ValueError
      | Some n \<Rightarrow> Inr n)"
| "py_int uni (VTime t) = Inl TypeError"

text \<open>Decimal rendering of an integer, as an f-string does it.\<close>

definition digit_char :: "nat \<Rightarrow> char" where
  "digit_char d = ''0123456789'' ! d"

fun show_nat :: "nat \<Rightarrow> string" where
  "show_nat n = (if n < 10 then [digit_char n] else show_nat (n div 10) @ [digit_char (n mod 10)])"

declare show_nat.simps [simp del]

definition show_int :: "int \<Rightarrow> string" where
  "show_int i = (if i < 0 then CHR ''-'' # show_nat (nat (- i)) else show_nat (nat i))"

section \<open>Constants of the host framework\<close>

text \<open>Values of \<^verbatim>\<open>homeassistant.const\<close> that the module compares states with.\<close>

definition STATE_UNKNOWN :: string where
  "STATE_UNKNOWN = ''unknown''"

definition STATE_ON :: string where
  "STATE_ON = ''on''"

section \<open>Icon functions\<close>

text \<open>
  \<^verbatim>\<open>FUNC_ICON_BATTERY\<close> and \<^verbatim>\<open>FUNC_ICON_MOWER_ALERT\<close>. A result is \<open>Inr icon\<close>, or
  \<open>Inl e\<close> when the call raises \<open>e\<close>. In \<^verbatim>\<open>int(state) > 0 or state == STATE_ON\<close> the
  conversion is evaluated first, so its exception leaves the function before the
  comparison is reached.
\<close>

definition FUNC_ICON_BATTERY :: "(string \<Rightarrow> int option) \<Rightarrow> pyval \<Rightarrow> exc + string" where
  "FUNC_ICON_BATTERY uni state =
     (if truthy state \<and> \<not> state = VStr STATE_UNKNOWN then
        (case py_int uni state of
           Inl e \<Rightarrow> Inl e
         | Inr n \<Rightarrow>
             if n = 0 then Inr ''mdi:battery-outline''
             else if n = 100 then Inr ''mdi:battery''
             else Inr (''mdi:battery-'' @ show_int (n - n mod 10)))
      else Inr ''mdi:battery-50'')"

definition FUNC_ICON_MOWER_ALERT :: "(string \<Rightarrow> int option) \<Rightarrow> pyval \<Rightarrow> exc + string" where
  "FUNC_ICON_MOWER_ALERT uni state =
     (if truthy state then
        (case py_int uni state of
           Inl e \<Rightarrow> Inl e
         | Inr n \<Rightarrow>
             if n > 0 \<or> state = VStr STATE_ON then Inr ''mdi:alert-outline''
             else Inr ''mdi:check-circle-outline'')
      else Inr ''mdi:check-circle-outline'')"

section \<open>Constants of the integration\<close>

text \<open>
  The module imports its entity keys, type tags and service names from \<^verbatim>\<open>.const\<close>,
  which is not among the sources. Their values are therefore a parameter \<open>c\<close> of the
  model: \<open>val c ENTITY_ONLINE\<close> is the string the name \<^verbatim>\<open>ENTITY_ONLINE\<close> stands for.
\<close>

datatype cname =
    ENTITY_ONLINE
  | ENTITY_UPDATE_AVAILABLE
  | ENTITY_ALERT
  | ENTITY_MOWER_STATE
  | ENTITY_MOWER_STATE_DETAIL
  | ENTITY_BATTERY
  | ENTITY_LAWN_MOWED
  | ENTITY_LAST_COMPLETED
  | ENTITY_NEXT_MOW
  | ENTITY_MOWING_MODE
  | ENTITY_RUNTIME
  | ENTITY_MOWER_ALERT
  | SENSOR_TYPE
  | BINARY_SENSOR_TYPE
  | CONF_SEND_COMMAND
  | CONF_SMARTMOWING
  | DOMAIN
  | SERVICE_NAME_COMMAND
  | SERVICE_NAME_SMARTMOW

record constants =
  val :: "cname \<Rightarrow> string"
  DEFAULT_NAME_COMMANDS :: pyval
  INDEGO_COMPONENTS :: "string list"

definition entity_names :: "cname list" where
  "entity_names =
     [ENTITY_ONLINE, ENTITY_UPDATE_AVAILABLE, ENTITY_ALERT, ENTITY_MOWER_STATE,
      ENTITY_MOWER_STATE_DETAIL, ENTITY_BATTERY, ENTITY_LAWN_MOWED, ENTITY_LAST_COMPLETED,
      ENTITY_NEXT_MOW, ENTITY_MOWING_MODE, ENTITY_RUNTIME, ENTITY_MOWER_ALERT]"

text \<open>
  What the module takes for granted about these values: the twelve entity keys are
  pairwise different strings, and so are the two type tags.
\<close>

definition distinct_consts :: "constants \<Rightarrow> bool" where
  "distinct_consts c =
     (distinct (map (val c) entity_names) \<and> val c SENSOR_TYPE \<noteq> val c BINARY_SENSOR_TYPE)"

text \<open>Values of \<^verbatim>\<open>homeassistant.const\<close> and of the binary sensor component.\<close>

definition DEVICE_CLASS_CONNECTIVITY :: string where
  "DEVICE_CLASS_CONNECTIVITY = ''connectivity''"

definition DEVICE_CLASS_PROBLEM :: string where
  "DEVICE_CLASS_PROBLEM = ''problem''"

definition DEVICE_CLASS_BATTERY :: string where
  "DEVICE_CLASS_BATTERY = ''battery''"

definition DEVICE_CLASS_TIMESTAMP :: string where
  "DEVICE_CLASS_TIMESTAMP = ''timestamp''"

definition TEMP_CELSIUS :: string where
  "TEMP_CELSIUS = [CHR 0xC2, CHR 0xB0, CHR ''C'']"

section \<open>The entity table\<close>

datatype icon_func = Func_icon_battery | Func_icon_mower_alert

datatype icon = Icon string | Icon_func icon_func

fun icon_func_body :: "(string \<Rightarrow> int option) \<Rightarrow> icon_func \<Rightarrow> pyval \<Rightarrow> exc + string" where
  "icon_func_body uni Func_icon_battery = FUNC_ICON_BATTERY uni"
| "icon_func_body uni Func_icon_mower_alert = FUNC_ICON_MOWER_ALERT uni"

text \<open>
  One value of \<^verbatim>\<open>entity_definitions\<close>. The binary sensor entries have no
  \<^verbatim>\<open>CONF_UNIT_OF_MEASUREMENT\<close> key: \<open>conf_unit_of_measurement\<close> is \<open>None\<close> for a missing
  key and \<open>Some None\<close> for the key bound to \<^verbatim>\<open>None\<close>.
\<close>

record edef =
  conf_type :: string
  conf_name :: string
  conf_icon :: icon
  conf_device_class :: "string option"
  conf_unit_of_measurement :: "string option option"
  conf_attr :: "string list"

text \<open>The dictionary display, entry by entry, in the order of the source.\<close>

definition entity_definitions_display :: "constants \<Rightarrow> (string \<times> edef) list" where
  "entity_definitions_display c =
    [(val c ENTITY_ONLINE,
       \<lparr>conf_type = val c BINARY_SENSOR_TYPE, conf_name = ''online'',
        conf_icon = Icon ''mdi:cloud-check'',
        conf_device_class = Some DEVICE_CLASS_CONNECTIVITY,
        conf_unit_of_measurement = None, conf_attr = []\<rparr>),
     (val c ENTITY_UPDATE_AVAILABLE,
       \<lparr>conf_type = val c BINARY_SENSOR_TYPE, conf_name = ''update available'',
        conf_icon = Icon ''mdi:chip'',
        conf_device_class = None,
        conf_unit_of_measurement = None, conf_attr = []\<rparr>),
     (val c ENTITY_ALERT,
       \<lparr>conf_type = val c BINARY_SENSOR_TYPE, conf_name = ''alert'',
        conf_icon = Icon_func Func_icon_mower_alert,
        conf_device_class = Some DEVICE_CLASS_PROBLEM,
        conf_unit_of_measurement = None,
        conf_attr = [''alerts_count'', ''alert_details'']\<rparr>),
     (val c ENTITY_MOWER_STATE,
       \<lparr>conf_type = val c SENSOR_TYPE, conf_name = ''mower state'',
        conf_icon = Icon ''mdi:robot'',
        conf_device_class = None,
        conf_unit_of_measurement = Some None,
        conf_attr = [''last_updated'', ''model'', ''serial'', ''firmware'']\<rparr>),
     (val c ENTITY_MOWER_STATE_DETAIL,
       \<lparr>conf_type = val c SENSOR_TYPE, conf_name = ''mower state detail'',
        conf_icon = Icon ''mdi:robot'',
        conf_device_class = None,
        conf_unit_of_measurement = Some None,
        conf_attr = [''last_updated'', ''state_number'', ''state_description'',
                     ''model_number'']\<rparr>),
     (val c ENTITY_BATTERY,
       \<lparr>conf_type = val c SENSOR_TYPE, conf_name = ''battery %'',
        conf_icon = Icon_func Func_icon_battery,
        conf_device_class = Some DEVICE_CLASS_BATTERY,
        conf_unit_of_measurement = Some (Some ''%''),
        conf_attr = [''last_updated'', ''voltage_V'', ''discharge_Ah'', ''cycles'',
                     ''battery_temp_'' @ TEMP_CELSIUS, ''ambient_temp_'' @ TEMP_CELSIUS]\<rparr>),
     (val c ENTITY_LAWN_MOWED,
       \<lparr>conf_type = val c SENSOR_TYPE, conf_name = ''lawn mowed'',
        conf_icon = Icon ''mdi:percent'',
        conf_device_class = None,
        conf_unit_of_measurement = Some None,
        conf_attr = [''last_updated'', ''last_completed_mow'', ''next_mow'',
                     ''last_session_operation_min'', ''last_session_cut_min'',
                     ''last_session_charge_min'']\<rparr>),
     (val c ENTITY_LAST_COMPLETED,
       \<lparr>conf_type = val c SENSOR_TYPE, conf_name = ''last completed'',
        conf_icon = Icon ''mdi:cash-100'',
        conf_device_class = Some DEVICE_CLASS_TIMESTAMP,
        conf_unit_of_measurement = Some (Some ''ISO8601''), conf_attr = []\<rparr>),
     (val c ENTITY_NEXT_MOW,
       \<lparr>conf_type = val c SENSOR_TYPE, conf_name = ''next mow'',
        conf_icon = Icon ''mdi:chevron-right'',
        conf_device_class = Some DEVICE_CLASS_TIMESTAMP,
        conf_unit_of_measurement = Some (Some ''ISO8601''), conf_attr = []\<rparr>),
     (val c ENTITY_MOWING_MODE,
       \<lparr>conf_type = val c SENSOR_TYPE, conf_name = ''mowing mode'',
        conf_icon = Icon ''mdi:alpha-m-circle-outline'',
        conf_device_class = None,
        conf_unit_of_measurement = Some None, conf_attr = []\<rparr>),
     (val c ENTITY_RUNTIME,
       \<lparr>conf_type = val c SENSOR_TYPE, conf_name = ''runtime total'',
        conf_icon = Icon ''mdi:information-outline'',
        conf_device_class = None,
        conf_unit_of_measurement = Some (Some ''h''),
        conf_attr = [''total_operation_time_h'', ''total_mowing_time_h'',
                     ''total_charging_time_h'']\<rparr>),
     (val c ENTITY_MOWER_ALERT,
       \<lparr>conf_type = val c SENSOR_TYPE, conf_name = ''mower alert'',
        conf_icon = Icon_func Func_icon_mower_alert,
        conf_device_class = None,
        conf_unit_of_measurement = Some None, conf_attr = []\<rparr>)]"

text \<open>
  A dictionary display is evaluated from left to right: a key that occurs again replaces
  the value and keeps the place of its first occurrence. \<open>entity_definitions c\<close> is the
  resulting dictionary as the list of its items.
\<close>

definition dict_display :: "('k \<times> 'v) list \<Rightarrow> ('k \<times> 'v) list" where
  "dict_display kvs = fold (\<lambda>(k, v). AList.update k v) kvs []"

definition entity_definitions :: "constants \<Rightarrow> (string \<times> edef) list" where
  "entity_definitions c = dict_display (entity_definitions_display c)"

text \<open>
  Modelled from the spec: the state holders \<^verbatim>\<open>IndegoSensor\<close> and
  \<^verbatim>\<open>IndegoBinarySensor\<close>, whose classes (\<^verbatim>\<open>.sensor\<close>, \<^verbatim>\<open>.binary_sensor\<close>) are not among
  the sources. The spec describes an entity as a named, typed state holder (sensor or
  binary sensor) with display metadata (icon, unit, device class) and a mapping of
  auxiliary attributes. An entity is the constructor call that made it, exactly as
  \<^verbatim>\<open>create_entities\<close> writes it, its state and its attribute mapping; assigning
  \<^verbatim>\<open>.state\<close> replaces the state and \<^verbatim>\<open>add_attribute\<close> adds the given items to the
  mapping.
\<close>

datatype ctor_call =
    IndegoSensor string string string icon "string option" "string option" "string list"
  | IndegoBinarySensor string string string icon "string option" "string list"

record entity =
  made_by :: ctor_call
  state :: pyval
  attributes :: "string \<rightharpoonup> pyval"

definition new_entity :: "ctor_call \<Rightarrow> entity" where
  "new_entity k = \<lparr>made_by = k, state = VNone, attributes = Map.empty\<rparr>"

text \<open>
  \<^verbatim>\<open>IndegoHub.create_entities\<close>: the loop over the items of the table. Reading
  \<^verbatim>\<open>entity[CONF_UNIT_OF_MEASUREMENT]\<close> of an entry without that key raises
  \<^verbatim>\<open>KeyError\<close>; an entry of neither type is skipped.
\<close>

fun create_entities_loop ::
  "constants \<Rightarrow> string \<Rightarrow> string \<Rightarrow> (string \<times> edef) list \<Rightarrow> (string \<rightharpoonup> entity)
     \<Rightarrow> exc + (string \<rightharpoonup> entity)" where
  "create_entities_loop c serial mower_name [] entities = Inr entities"
| "create_entities_loop c serial mower_name ((entity_key, entity) # rest) entities =
     (if conf_type entity = val c SENSOR_TYPE then
        (case conf_unit_of_measurement entity of
           None \<Rightarrow> Inl KeyError
         | Some unit \<Rightarrow>
             create_entities_loop c serial mower_name rest
               (entities(entity_key \<mapsto> new_entity
                  (IndegoSensor serial
                     (''indego_'' @ serial @ ''_'' @ entity_key)
                     (mower_name @ '' '' @ conf_name entity)
                     (conf_icon entity)
                     (conf_device_class entity)
                     unit
                     (conf_attr entity)))))
      else if conf_type entity = val c BINARY_SENSOR_TYPE then
        create_entities_loop c serial mower_name rest
          (entities(entity_key \<mapsto> new_entity
             (IndegoBinarySensor serial
                (''indego_'' @ serial @ ''_'' @ entity_key)
                (mower_name @ '' '' @ conf_name entity)
                (conf_icon entity)
                (conf_device_class entity)
                (conf_attr entity))))
      else create_entities_loop c serial mower_name rest entities)"

definition create_entities :: "constants \<Rightarrow> string \<Rightarrow> string \<Rightarrow> exc + (string \<rightharpoonup> entity)" where
  "create_entities c serial mower_name =
     create_entities_loop c serial mower_name (entity_definitions c) Map.empty"

text \<open>
  The entity that the specification describes for one item of the table, given the name
  \<open>nm\<close> it is to carry: a sensor-typed definition yields an \<^verbatim>\<open>IndegoSensor\<close>, a binary-sensor
  typed one an \<^verbatim>\<open>IndegoBinarySensor\<close>, with the identifier
  \<^verbatim>\<open>indego_{serial}_{entity_key}\<close> and the icon, device class, unit and attribute list of
  the definition.
\<close>

fun spec_entity :: "constants \<Rightarrow> string \<Rightarrow> string \<Rightarrow> string \<times> edef \<Rightarrow> entity option" where
  "spec_entity c ser nm (k, d) =
     (if conf_type d = val c SENSOR_TYPE then
        map_option
          (\<lambda>u. new_entity (IndegoSensor ser (''indego_'' @ ser @ ''_'' @ k) nm (conf_icon d)
                  (conf_device_class d) u (conf_attr d)))
          (conf_unit_of_measurement d)
      else if conf_type d = val c BINARY_SENSOR_TYPE then
        Some (new_entity (IndegoBinarySensor ser (''indego_'' @ ser @ ''_'' @ k) nm (conf_icon d)
                (conf_device_class d) (conf_attr d)))
      else None)"

section \<open>The API client and the host\<close>

text \<open>
  What the hub reads from the \<^verbatim>\<open>IndegoAsyncClient\<close> object, attribute by attribute:
  \<open>st_state\<close> is \<^verbatim>\<open>state.state\<close>, \<open>total_time\<close> and \<open>session_time\<close> are
  \<^verbatim>\<open>runtime.total\<close> and \<^verbatim>\<open>runtime.session\<close>, \<open>online\<close> is \<^verbatim>\<open>_online\<close>, \<open>alerts\<close> is
  the list of alerts as \<^verbatim>\<open>str\<close> renders it.
\<close>

datatype runtime_part = Runtime_part (operate: pyval) (cut: pyval) (charge: pyval)

datatype runtime_t = Runtime (total_time: runtime_part) (session_time: runtime_part)

datatype state_t = State (st_state: int) (mowed: pyval) (runtime: runtime_t)

datatype battery_t =
  Battery (percent_adjusted: pyval) (voltage: pyval) (discharge: pyval) (cycles: pyval)
    (battery_temp: pyval) (ambient_temp: pyval)

datatype operating_data_t = Operating_data (battery: battery_t)

datatype generic_data_t =
  Generic_data (mowing_mode_description: pyval) (model_description: pyval) (alm_sn: pyval)
    (alm_firmware_version: pyval) (bareToolnumber: pyval)

text \<open>The methods of the client that the hub awaits, with their arguments.\<close>

datatype api_call =
    login
  | update_state bool int
  | update_operating_data
  | update_generic_data
  | update_alerts
  | update_updates_available
  | update_last_completed_mow
  | update_next_mow
  | put_command pyval
  | put_mow_mode pyval
  | close

record client =
  online :: bool
  cl_state :: state_t
  state_description :: pyval
  state_description_detail :: pyval
  operating_data :: operating_data_t
  generic_data :: generic_data_t
  alerts_count :: int
  alerts :: string
  update_available :: pyval
  last_completed_mow :: pyval
  next_mow :: pyval
  calls :: "api_call list"

text \<open>
  The hub's callbacks, and the calls it makes to the host: listeners on the event bus,
  tasks, timers and services. A task handle or a timer's remover is the position of the
  call that returned it in the host's log.
\<close>

datatype callback =
    Cb_login
  | Cb_initial_update
  | Cb_async_shutdown
  | Cb_async_refresh_state
  | Cb_refresh_5m
  | Cb_refresh_60m
  | Cb_async_send_command
  | Cb_async_send_smartmowing

datatype event = EVENT_HOMEASSISTANT_STARTED | EVENT_HOMEASSISTANT_STOP

datatype marker = Required string

datatype validator = cv_string

type_synonym schema = "(marker \<times> validator) list"

datatype task_arg =
    Coroutine callback
  | Bound_method callback
  | Load_platform string string

datatype hass_call =
    Listen_once event callback
  | Create_task task_arg
  | Call_later int callback
  | Register_service string string callback schema
  | Task_cancel nat
  | Task_await nat
  | Remover_call nat

text \<open>
  The surroundings of one run: how the vendor's API answers a call (it raises, or it
  returns and the client holds new data), the clock, the raw output of the random number
  generator, the client object that \<^verbatim>\<open>IndegoAsyncClient(...)\<close> constructs, and what
  awaiting the task with a given handle gives: \<open>None\<close> when the task has ended or ends by
  returning, \<open>Some e\<close> when it has ended or ends by raising \<open>e\<close>, which the \<^verbatim>\<open>await\<close> raises
  again.
\<close>

record env =
  respond :: "api_call \<Rightarrow> client \<Rightarrow> exc + client"
  utcnow :: pyval
  random_raw :: "nat \<Rightarrow> nat"
  new_client :: client
  task_outcome :: "nat \<Rightarrow> exc option"

text \<open>\<^verbatim>\<open>random.randint(a, b)\<close>: an integer between \<open>a\<close> and \<open>b\<close>, both included.\<close>

definition randint :: "env \<Rightarrow> int \<Rightarrow> int \<Rightarrow> nat \<Rightarrow> int" where
  "randint env a b k = a + int (random_raw env k mod nat (b - a + 1))"

text \<open>
  The class hierarchy behind \<^verbatim>\<open>except\<close>: aiohttp declares
  \<^verbatim>\<open>class TooManyRedirects(ClientResponseError)\<close>; \<^verbatim>\<open>ServerTimeoutError\<close> is not a
  response error; every class of \<open>exc\<close> derives from \<^verbatim>\<open>Exception\<close>.
\<close>

definition isinstance :: "exc \<Rightarrow> exc \<Rightarrow> bool" where
  "isinstance e cls =
     (e = cls \<or> (e = TooManyRedirects \<and> cls = ClientResponseError) \<or> cls = Exception)"

section \<open>The hub\<close>

record hub =
  mower_name :: string
  username :: string
  password :: string
  serial :: string
  polling :: bool
  hass :: "hass_call list"
  indego :: client
  refresh_state_task :: "nat option"
  refresh_5m_remover :: "nat option"
  refresh_60m_remover :: "nat option"
  shutdown :: bool
  entities :: "string \<rightharpoonup> entity"

text \<open>
  A method of the hub changes the hub and returns normally (\<open>None\<close>) or raises
  (\<open>Some e\<close>); what it changed before raising stays changed. \<open>run\<close> is a sequence of
  statements: the first one that raises ends it.
\<close>

type_synonym step = "hub \<Rightarrow> exc option \<times> hub"

fun run :: "step list \<Rightarrow> step" where
  "run [] h = (None, h)"
| "run (s # ss) h = (case s h of (Some e, h') \<Rightarrow> (Some e, h') | (None, h') \<Rightarrow> run ss h')"

text \<open>\<^verbatim>\<open>await self.indego.method(...)\<close>.\<close>

definition await_indego :: "env \<Rightarrow> api_call \<Rightarrow> step" where
  "await_indego env a h =
     (case respond env a (indego h) of
        Inl e \<Rightarrow> (Some e, h\<lparr>indego := (indego h)\<lparr>calls := calls (indego h) @ [a]\<rparr>\<rparr>)
      | Inr cl \<Rightarrow> (None, h\<lparr>indego := cl\<lparr>calls := calls (indego h) @ [a]\<rparr>\<rparr>))"

text \<open>\<^verbatim>\<open>self.entities[key].state = v\<close> and \<^verbatim>\<open>self.entities[key].add_attribute({...})\<close>.\<close>

definition set_state :: "string \<Rightarrow> pyval \<Rightarrow> step" where
  "set_state k v h =
     (case entities h k of
        None \<Rightarrow> (Some KeyError, h)
      | Some e \<Rightarrow> (None, h\<lparr>entities := (entities h)(k \<mapsto> e\<lparr>state := v\<rparr>)\<rparr>))"

definition add_attribute :: "string \<Rightarrow> (string \<times> pyval) list \<Rightarrow> step" where
  "add_attribute k kvs h =
     (case entities h k of
        None \<Rightarrow> (Some KeyError, h)
      | Some e \<Rightarrow>
          (None, h\<lparr>entities := (entities h)(k \<mapsto>
             e\<lparr>attributes := attributes e ++ map_of (rev kvs)\<rparr>)\<rparr>))"

text \<open>\<^verbatim>\<open>hass.async_create_task\<close> and \<^verbatim>\<open>async_call_later\<close> return a handle.\<close>

definition host :: "hass_call \<Rightarrow> hub \<Rightarrow> hub" where
  "host x h = h\<lparr>hass := hass h @ [x]\<rparr>"

definition hub_update_operating_data :: "constants \<Rightarrow> env \<Rightarrow> step" where
  "hub_update_operating_data c env =
     run [await_indego env update_operating_data,
          (\<lambda>h. set_state (val c ENTITY_ONLINE) (VBool (online (indego h))) h),
          (\<lambda>h. set_state (val c ENTITY_BATTERY)
                  (percent_adjusted (battery (operating_data (indego h)))) h),
          (\<lambda>h. add_attribute (val c ENTITY_BATTERY)
                  [(''last_updated'', utcnow env),
                   (''voltage_V'', voltage (battery (operating_data (indego h)))),
                   (''discharge_Ah'', discharge (battery (operating_data (indego h)))),
                   (''cycles'', cycles (battery (operating_data (indego h)))),
                   (''battery_temp_'' @ TEMP_CELSIUS,
                      battery_temp (battery (operating_data (indego h)))),
                   (''ambient_temp_'' @ TEMP_CELSIUS,
                      ambient_temp (battery (operating_data (indego h))))] h)]"

text \<open>
  \<^verbatim>\<open>_update_state\<close>: the long poll, the shutdown guard, and then the dependent state and
  attribute updates, which are \<open>state_updates\<close>.
\<close>

definition state_updates :: "constants \<Rightarrow> env \<Rightarrow> step list" where
  "state_updates c env =
     [(\<lambda>h. set_state (val c ENTITY_MOWER_STATE) (state_description (indego h)) h),
      (\<lambda>h. set_state (val c ENTITY_MOWER_STATE_DETAIL)
              (state_description_detail (indego h)) h),
      (\<lambda>h. set_state (val c ENTITY_LAWN_MOWED) (mowed (cl_state (indego h))) h),
      (\<lambda>h. set_state (val c ENTITY_RUNTIME)
              (operate (total_time (runtime (cl_state (indego h))))) h),
      add_attribute (val c ENTITY_MOWER_STATE) [(''last_updated'', utcnow env)],
      (\<lambda>h. add_attribute (val c ENTITY_MOWER_STATE_DETAIL)
              [(''last_updated'', utcnow env),
               (''state_number'', VInt (st_state (cl_state (indego h)))),
               (''state_description'', state_description_detail (indego h))] h),
      (\<lambda>h. add_attribute (val c ENTITY_LAWN_MOWED)
              [(''last_updated'', utcnow env),
               (''last_session_operation_min'',
                  operate (session_time (runtime (cl_state (indego h))))),
               (''last_session_cut_min'',
                  cut (session_time (runtime (cl_state (indego h))))),
               (''last_session_charge_min'',
                  charge (session_time (runtime (cl_state (indego h)))))] h),
      (\<lambda>h. add_attribute (val c ENTITY_RUNTIME)
              [(''total_operation_time_h'',
                  operate (total_time (runtime (cl_state (indego h))))),
               (''total_mowing_time_h'',
                  cut (total_time (runtime (cl_state (indego h))))),
               (''total_charging_time_h'',
                  charge (total_time (runtime (cl_state (indego h)))))] h)]"

definition hub_update_state :: "constants \<Rightarrow> env \<Rightarrow> step" where
  "hub_update_state c env h =
     (case await_indego env (update_state True 300) h of
        (Some e, h1) \<Rightarrow> (Some e, h1)
      | (None, h1) \<Rightarrow> if shutdown h1 then (None, h1) else run (state_updates c env) h1)"

definition hub_update_generic_data :: "constants \<Rightarrow> env \<Rightarrow> step" where
  "hub_update_generic_data c env =
     run [await_indego env update_generic_data,
          (\<lambda>h. set_state (val c ENTITY_MOWING_MODE)
                  (mowing_mode_description (generic_data (indego h))) h),
          (\<lambda>h. add_attribute (val c ENTITY_MOWER_STATE)
                  [(''model'', model_description (generic_data (indego h))),
                   (''serial'', alm_sn (generic_data (indego h))),
                   (''firmware'', alm_firmware_version (generic_data (indego h)))] h),
          (\<lambda>h. add_attribute (val c ENTITY_MOWER_STATE_DETAIL)
                  [(''model_number'', bareToolnumber (generic_data (indego h)))] h)]"

definition hub_update_alerts :: "constants \<Rightarrow> env \<Rightarrow> step" where
  "hub_update_alerts c env =
     run [await_indego env update_alerts,
          (\<lambda>h. set_state (val c ENTITY_MOWER_ALERT) (VInt (alerts_count (indego h))) h),
          (\<lambda>h. set_state (val c ENTITY_ALERT) (VBool (alerts_count (indego h) > 0)) h),
          (\<lambda>h. add_attribute (val c ENTITY_ALERT)
                  [(''alerts_count'', VInt (alerts_count (indego h))),
                   (''alert_details'', VStr (alerts (indego h)))] h)]"

definition hub_update_updates_available :: "constants \<Rightarrow> env \<Rightarrow> step" where
  "hub_update_updates_available c env =
     run [await_indego env update_updates_available,
          (\<lambda>h. set_state (val c ENTITY_UPDATE_AVAILABLE) (update_available (indego h)) h)]"

definition hub_update_last_completed_mow :: "constants \<Rightarrow> env \<Rightarrow> step" where
  "hub_update_last_completed_mow c env =
     run [await_indego env update_last_completed_mow,
          (\<lambda>h. set_state (val c ENTITY_LAST_COMPLETED) (last_completed_mow (indego h)) h),
          (\<lambda>h. add_attribute (val c ENTITY_LAWN_MOWED)
                  [(''last_completed_mow'', last_completed_mow (indego h))] h)]"

definition hub_update_next_mow :: "constants \<Rightarrow> env \<Rightarrow> step" where
  "hub_update_next_mow c env =
     run [await_indego env update_next_mow,
          (\<lambda>h. set_state (val c ENTITY_NEXT_MOW) (next_mow (indego h)) h),
          (\<lambda>h. add_attribute (val c ENTITY_LAWN_MOWED) [(''next_mow'', next_mow (indego h))] h)]"

text \<open>
  \<^verbatim>\<open>async_refresh_state\<close>: one iteration of the long-poll loop. The shutdown flag is
  read after the state update has returned.
\<close>

definition needs_operating_data :: "client \<Rightarrow> bool" where
  "needs_operating_data cl =
     (let state = st_state (cl_state cl)
      in (500 \<le> state \<and> state \<le> 799) \<or> state \<in> set [257, 266] \<or> online cl)"

definition async_refresh_state :: "constants \<Rightarrow> env \<Rightarrow> step" where
  "async_refresh_state c env h =
     (case hub_update_state c env h of
        (Some e, h1) \<Rightarrow> (Some e, h1)
      | (None, h1) \<Rightarrow>
          if shutdown h1 then (None, h1)
          else
            (case (if needs_operating_data (indego h1) then hub_update_operating_data c env h1
                   else (None, h1)) of
               (Some e, h2) \<Rightarrow> (Some e, h2)
             | (None, h2) \<Rightarrow>
                 (None, host (Create_task (Coroutine Cb_async_refresh_state))
                          (h2\<lparr>refresh_state_task := Some (length (hass h2))\<rparr>))))"

text \<open>
  \<^verbatim>\<open>asyncio.gather\<close>: the coroutines are run one after the other, and each result is
  \<open>None\<close> (the coroutine returned, and none of them returns a value) or the exception it
  raised.
\<close>

fun gather :: "step list \<Rightarrow> hub \<Rightarrow> exc option list \<times> hub" where
  "gather [] h = ([], h)"
| "gather (s # ss) h =
     (case s h of (r, h') \<Rightarrow> (case gather ss h' of (rs, h'') \<Rightarrow> (r # rs, h'')))"

text \<open>
  The loop over the gathered results in \<^verbatim>\<open>refresh_5m\<close>: \<open>k\<close> counts the random numbers
  drawn so far; a result that no \<^verbatim>\<open>except\<close> clause matches would leave the function.
\<close>

fun results_loop :: "env \<Rightarrow> exc option list \<Rightarrow> nat \<Rightarrow> int \<Rightarrow> exc + int" where
  "results_loop env [] k next_refresh = Inr next_refresh"
| "results_loop env (None # results) k next_refresh = results_loop env results k next_refresh"
| "results_loop env (Some res # results) k next_refresh =
     (if isinstance res ServerTimeoutError \<or> isinstance res TooManyRedirects then
        results_loop env results (Suc k) (60 + randint env 0 30 k)
      else if isinstance res Exception then results_loop env results k next_refresh
      else Inl res)"

definition refresh_5m :: "constants \<Rightarrow> env \<Rightarrow> step" where
  "refresh_5m c env h =
     (case gather [hub_update_generic_data c env,
                   hub_update_alerts c env,
                   hub_update_last_completed_mow c env,
                   hub_update_next_mow c env] h of
        (results, h1) \<Rightarrow>
          (case results_loop env results 0 300 of
             Inl e \<Rightarrow> (Some e, h1)
           | Inr next_refresh \<Rightarrow>
               (None, host (Call_later next_refresh Cb_refresh_5m)
                        (h1\<lparr>refresh_5m_remover := Some (length (hass h1))\<rparr>))))"

definition refresh_60m :: "constants \<Rightarrow> env \<Rightarrow> step" where
  "refresh_60m c env =
     run [hub_update_updates_available c env,
          (\<lambda>h. (None, host (Call_later 3600 Cb_refresh_60m)
                         (h\<lparr>refresh_60m_remover := Some (length (hass h))\<rparr>)))]"

text \<open>
  \<^verbatim>\<open>_initial_update\<close>. The two gathered coroutines become tasks. \<^verbatim>\<open>refresh_5m\<close> starts
  first and at once waits for the four tasks of its own \<^verbatim>\<open>gather\<close>, which have not
  started yet; \<^verbatim>\<open>refresh_60m\<close> starts next and makes its call to the client. So, with an
  API that answers the calls in the order in which they are made, \<^verbatim>\<open>refresh_60m\<close> is the
  first to reach its timer, and that is the order of the model. Without
  \<^verbatim>\<open>return_exceptions\<close> the first exception raised leaves \<^verbatim>\<open>_initial_update\<close>, while the
  other task runs on.
\<close>

definition hub_initial_update :: "constants \<Rightarrow> env \<Rightarrow> step" where
  "hub_initial_update c env h =
     (let h0 = host (Create_task (Coroutine Cb_async_refresh_state))
                 (h\<lparr>refresh_state_task := Some (length (hass h))\<rparr>)
      in case refresh_60m c env h0 of
           (r60, h1) \<Rightarrow>
             (case refresh_5m c env h1 of
                (r5, h2) \<Rightarrow> (case r60 of Some e \<Rightarrow> (Some e, h2) | None \<Rightarrow> (r5, h2))))"

text \<open>
  \<^verbatim>\<open>async_shutdown\<close>. A task handle or a remover that is set is truthy. There is no
  \<^verbatim>\<open>try\<close> around \<^verbatim>\<open>await self.refresh_state_task\<close>: when the task has ended by raising,
  or ends so after the cancellation, the \<^verbatim>\<open>await\<close> raises that exception and the
  statements after it are not reached.
\<close>

definition async_shutdown :: "env \<Rightarrow> step" where
  "async_shutdown env =
     run [(\<lambda>h. (None, h\<lparr>shutdown := True\<rparr>)),
          (\<lambda>h. case refresh_state_task h of
                  None \<Rightarrow> (None, h)
                | Some t \<Rightarrow>
                    (task_outcome env t, host (Task_await t) (host (Task_cancel t) h))),
          (\<lambda>h. case refresh_5m_remover h of
                  None \<Rightarrow> (None, h)
                | Some r \<Rightarrow> (None, host (Remover_call r) h)),
          (\<lambda>h. case refresh_60m_remover h of
                  None \<Rightarrow> (None, h)
                | Some r \<Rightarrow> (None, host (Remover_call r) h)),
          await_indego env close]"

text \<open>
  \<^verbatim>\<open>_login\<close>. The \<^verbatim>\<open>except\<close> clauses are tried in the order of the source. When no clause
  matches, \<^verbatim>\<open>retry_login\<close> is unbound in the \<^verbatim>\<open>finally\<close> block, whose
  \<^verbatim>\<open>UnboundLocalError\<close> replaces the exception on its way out. The task is created from
  the bound method \<^verbatim>\<open>self._initial_update\<close>, not from a call of it.
\<close>

definition hub_login :: "env \<Rightarrow> step" where
  "hub_login env h =
     (case await_indego env login h of
        (r, h1) \<Rightarrow>
          (let retry_login =
                 (case r of
                    None \<Rightarrow> Some False
                  | Some e \<Rightarrow>
                      if isinstance e ClientResponseError then Some False
                      else if isinstance e ServerTimeoutError \<or> isinstance e TooManyRedirects
                      then Some True
                      else None)
           in case retry_login of
                None \<Rightarrow> (Some UnboundLocalError, h1)
              | Some True \<Rightarrow> (None, host (Call_later 60 Cb_login) h1)
              | Some False \<Rightarrow> (None, host (Create_task (Bound_method Cb_initial_update)) h1)))"

definition async_schedule_updates :: "bool \<Rightarrow> hub \<Rightarrow> hub" where
  "async_schedule_updates retry_login h =
     host (Listen_once EVENT_HOMEASSISTANT_STOP Cb_async_shutdown)
       (if retry_login then host (Listen_once EVENT_HOMEASSISTANT_STARTED Cb_login) h
        else host (Listen_once EVENT_HOMEASSISTANT_STARTED Cb_initial_update) h)"

text \<open>\<^verbatim>\<open>IndegoHub.__init__\<close>; \<open>hass0\<close> is the host as the hub finds it.\<close>

definition IndegoHub ::
  "constants \<Rightarrow> env \<Rightarrow> string \<Rightarrow> string \<Rightarrow> string \<Rightarrow> string \<Rightarrow> bool \<Rightarrow> hass_call list
     \<Rightarrow> exc + hub" where
  "IndegoHub c env name user pw ser poll hass0 =
     (case create_entities c ser name of
        Inl e \<Rightarrow> Inl e
      | Inr ents \<Rightarrow>
          Inr \<lparr>mower_name = name, username = user, password = pw, serial = ser,
               polling = poll, hass = hass0,
               indego = (new_client env)\<lparr>calls := []\<rparr>,
               refresh_state_task = None, refresh_5m_remover = None,
               refresh_60m_remover = None, shutdown = False, entities = ents\<rparr>)"

text \<open>The validated configuration \<^verbatim>\<open>config[DOMAIN]\<close>.\<close>

record config =
  cfg_name :: string
  cfg_username :: string
  cfg_password :: string
  cfg_id :: string
  cfg_polling :: bool

definition SERVICE_SCHEMA_COMMAND :: "constants \<Rightarrow> schema" where
  "SERVICE_SCHEMA_COMMAND c = [(Required (val c CONF_SEND_COMMAND), cv_string)]"

definition SERVICE_SCHEMA_SMARTMOWING :: "constants \<Rightarrow> schema" where
  "SERVICE_SCHEMA_SMARTMOWING c = [(Required (val c CONF_SMARTMOWING), cv_string)]"

text \<open>
  The two service handlers that \<^verbatim>\<open>async_setup\<close> defines; \<open>call_data\<close> is
  \<^verbatim>\<open>call.data\<close>.
\<close>

definition async_send_command :: "constants \<Rightarrow> env \<Rightarrow> (string \<rightharpoonup> pyval) \<Rightarrow> step" where
  "async_send_command c env call_data =
     (let name = (case call_data (val c CONF_SEND_COMMAND) of
                    Some v \<Rightarrow> v
                  | None \<Rightarrow> DEFAULT_NAME_COMMANDS c)
      in run [await_indego env (put_command name), hub_update_state c env])"

definition async_send_smartmowing :: "constants \<Rightarrow> env \<Rightarrow> (string \<rightharpoonup> pyval) \<Rightarrow> step" where
  "async_send_smartmowing c env call_data =
     (let name = (case call_data (val c CONF_SMARTMOWING) of
                    Some v \<Rightarrow> v
                  | None \<Rightarrow> DEFAULT_NAME_COMMANDS c)
      in run [await_indego env (put_mow_mode name), hub_update_generic_data c env])"

text \<open>
  \<^verbatim>\<open>async_setup\<close> returns \<open>Inr (result, hub)\<close>, or \<open>Inl e\<close> when it raises. The part after
  the \<^verbatim>\<open>try\<close> statement is \<open>setup_rest\<close>.
\<close>

definition setup_rest :: "constants \<Rightarrow> bool \<Rightarrow> hub \<Rightarrow> hub" where
  "setup_rest c retry_login h =
     (let h1 = async_schedule_updates retry_login h;
          h2 = fold (\<lambda>comp. host (Create_task (Load_platform comp (val c DOMAIN))))
                 (INDEGO_COMPONENTS c) h1;
          h3 = host (Register_service (val c DOMAIN) (val c SERVICE_NAME_COMMAND)
                       Cb_async_send_command (SERVICE_SCHEMA_COMMAND c)) h2
      in host (Register_service (val c DOMAIN) (val c SERVICE_NAME_SMARTMOW)
                 Cb_async_send_smartmowing (SERVICE_SCHEMA_SMARTMOWING c)) h3)"

definition async_setup ::
  "constants \<Rightarrow> env \<Rightarrow> hass_call list \<Rightarrow> config \<Rightarrow> exc + bool \<times> hub" where
  "async_setup c env hass0 conf =
     (case IndegoHub c env (cfg_name conf) (cfg_username conf) (cfg_password conf)
             (cfg_id conf) (cfg_polling conf) hass0 of
        Inl e \<Rightarrow> Inl e
      | Inr component \<Rightarrow>
          (case await_indego env login component of
             (None, h1) \<Rightarrow> Inr (True, setup_rest c False h1)
           | (Some e, h1) \<Rightarrow>
               if isinstance e ClientResponseError then Inr (False, h1)
               else if isinstance e ServerTimeoutError \<or> isinstance e TooManyRedirects
               then Inr (True, setup_rest c True h1)
               else Inl e))"

text \<open>What the host runs when it invokes a callback of the hub.\<close>

fun callback_body :: "constants \<Rightarrow> env \<Rightarrow> (string \<rightharpoonup> pyval) \<Rightarrow> callback \<Rightarrow> step" where
  "callback_body c env d Cb_login = hub_login env"
| "callback_body c env d Cb_initial_update = hub_initial_update c env"
| "callback_body c env d Cb_async_shutdown = async_shutdown env"
| "callback_body c env d Cb_async_refresh_state = async_refresh_state c env"
| "callback_body c env d Cb_refresh_5m = refresh_5m c env"
| "callback_body c env d Cb_refresh_60m = refresh_60m c env"
| "callback_body c env d Cb_async_send_command = async_send_command c env d"
| "callback_body c env d Cb_async_send_smartmowing = async_send_smartmowing c env d"

text \<open>The services registered with the host, in the order of registration.\<close>

fun registered_services :: "hass_call list \<Rightarrow> hass_call list" where
  "registered_services [] = []"
| "registered_services (Register_service d n cb sch # xs) =
     Register_service d n cb sch # registered_services xs"
| "registered_services (x # xs) = registered_services xs"

text \<open>
  The part of the hub that the entity updates never touch: the host's log, the shutdown
  flag and the three handles.
\<close>

definition control ::
  "hub \<Rightarrow> hass_call list \<times> bool \<times> nat option \<times> nat option \<times> nat option" where
  "control h =
     (hass h, shutdown h, refresh_state_task h, refresh_5m_remover h, refresh_60m_remover h)"

text \<open>Every key of the table is bound in the hub's entity mapping.\<close>

definition entities_present :: "constants \<Rightarrow> hub \<Rightarrow> bool" where
  "entities_present c h = list_all (\<lambda>n. entities h (val c n) \<noteq> None) entity_names"

section \<open>A sample installation\<close>

text \<open>
  Concrete surroundings on which the statements below are exercised: values for the
  constants, a client with a mower that is docked (state 258) and offline, and an API that
  answers every call without changing the data.
\<close>

definition sample_val :: "cname \<Rightarrow> string" where
  "sample_val n =
     (case n of
        ENTITY_ONLINE \<Rightarrow> ''online''
      | ENTITY_UPDATE_AVAILABLE \<Rightarrow> ''update_available''
      | ENTITY_ALERT \<Rightarrow> ''alert''
      | ENTITY_MOWER_STATE \<Rightarrow> ''mower_state''
      | ENTITY_MOWER_STATE_DETAIL \<Rightarrow> ''mower_state_detail''
      | ENTITY_BATTERY \<Rightarrow> ''battery_percentage''
      | ENTITY_LAWN_MOWED \<Rightarrow> ''lawn_mowed''
      | ENTITY_LAST_COMPLETED \<Rightarrow> ''last_completed''
      | ENTITY_NEXT_MOW \<Rightarrow> ''next_mow''
      | ENTITY_MOWING_MODE \<Rightarrow> ''mowing_mode''
      | ENTITY_RUNTIME \<Rightarrow> ''runtime_total''
      | ENTITY_MOWER_ALERT \<Rightarrow> ''mower_alert''
      | SENSOR_TYPE \<Rightarrow> ''sensor''
      | BINARY_SENSOR_TYPE \<Rightarrow> ''binary_sensor''
      | CONF_SEND_COMMAND \<Rightarrow> ''command''
      | CONF_SMARTMOWING \<Rightarrow> ''enable''
      | DOMAIN \<Rightarrow> ''indego''
      | SERVICE_NAME_COMMAND \<Rightarrow> ''command''
      | SERVICE_NAME_SMARTMOW \<Rightarrow> ''smartmowing'')"

definition sample_consts :: constants where
  "sample_consts =
     \<lparr>val = sample_val, DEFAULT_NAME_COMMANDS = VNone,
      INDEGO_COMPONENTS = [''sensor'', ''binary_sensor'']\<rparr>"

definition sample_client :: client where
  "sample_client =
     \<lparr>online = False,
      cl_state = State 258 (VInt 40)
        (Runtime (Runtime_part (VInt 100) (VInt 60) (VInt 40))
                 (Runtime_part (VInt 30) (VInt 20) (VInt 10))),
      state_description = VStr ''Docked'',
      state_description_detail = VStr ''Docked'',
      operating_data =
        Operating_data (Battery (VInt 80) (VInt 8) (VInt 0) (VInt 5) (VInt 20) (VInt 18)),
      generic_data =
        Generic_data (VStr ''smart'') (VStr ''Indego 400'') (VStr ''505703041'') (VStr ''1.0'')
          (VStr ''3600HB0101''),
      alerts_count = 0, alerts = ''[]'', update_available = VBool False,
      last_completed_mow = VTime 10, next_mow = VTime 20, calls = []\<rparr>"

definition sample_env :: env where
  "sample_env =
     \<lparr>respond = (\<lambda>a cl. Inr cl), utcnow = VTime 15, random_raw = (\<lambda>k. 7),
      new_client = sample_client, task_outcome = (\<lambda>t. None)\<rparr>"

definition sample_config :: config where
  "sample_config =
     \<lparr>cfg_name = ''Indego'', cfg_username = ''user'', cfg_password = ''secret'',
      cfg_id = ''505703041'', cfg_polling = False\<rparr>"

text \<open>An API that raises \<open>e\<close> on the call \<open>a\<close> and answers every other call.\<close>

definition raising :: "api_call \<Rightarrow> exc \<Rightarrow> env" where
  "raising a e = sample_env\<lparr>respond := (\<lambda>b cl. if b = a then Inl e else Inr cl)\<rparr>"

text \<open>
  The hub that \<^verbatim>\<open>IndegoHub(...)\<close> makes for the sample configuration on a host without
  earlier calls, and an API whose state update reports a mowing mower (state 513).
\<close>

definition sample_entities :: "string \<rightharpoonup> entity" where
  "sample_entities k =
     (case map_of (entity_definitions_display sample_consts) k of
        None \<Rightarrow> None
      | Some d \<Rightarrow>
          spec_entity sample_consts ''505703041'' (''Indego'' @ '' '' @ conf_name d) (k, d))"

definition sample_hub :: hub where
  "sample_hub =
     \<lparr>mower_name = ''Indego'', username = ''user'', password = ''secret'',
      serial = ''505703041'', polling = False, hass = [],
      indego = sample_client,
      refresh_state_task = None, refresh_5m_remover = None,
      refresh_60m_remover = None, shutdown = False, entities = sample_entities\<rparr>"


text \<open>
  A hub whose three loops are under way, and surroundings in which the state update
  raises and the state task has therefore ended with that exception.
\<close>

definition running_hub :: hub where
  "running_hub =
     sample_hub\<lparr>hass := [Create_task (Coroutine Cb_async_refresh_state),
                          Call_later 3600 Cb_refresh_60m, Call_later 300 Cb_refresh_5m],
                 refresh_state_task := Some 0, refresh_60m_remover := Some 1,
                 refresh_5m_remover := Some 2\<rparr>"

definition dead_task_env :: env where
  "dead_task_env =
     (raising (update_state True 300) ServerTimeoutError)
       \<lparr>task_outcome := (\<lambda>t. Some ServerTimeoutError)\<rparr>"


section \<open>Facts about the icon functions\<close>

lemma py_int_STATE_ON: "py_int uni (VStr STATE_ON) = Inl ValueError"
  by (simp add: STATE_ON_def is_ascii_def parse_int_def strip_def is_space_def parse_nat_def
      is_digit_def)

lemma battery_icon_int:
  "FUNC_ICON_BATTERY uni (VInt n) =
     Inr (if n = 0 then ''mdi:battery-50''
          else if n = 100 then ''mdi:battery''
          else ''mdi:battery-'' @ show_int (n - n mod 10))"
  by (simp add: FUNC_ICON_BATTERY_def)

lemma battery_icon_tens:
  assumes "1 \<le> n" "n \<le> 99"
  shows "FUNC_ICON_BATTERY uni (VInt n) =
           Inr (''mdi:battery-'' @ show_nat (10 * nat (n div 10)))"
proof -
  have "n - n mod 10 = 10 * (n div 10)" by (simp add: minus_mod_eq_mult_div)
  moreover have "0 \<le> n div 10" using assms by simp
  ultimately have "show_int (n - n mod 10) = show_nat (10 * nat (n div 10))"
    by (simp add: show_int_def nat_mult_distrib)
  with assms show ?thesis by (simp add: battery_icon_int)
qed

lemma battery_icon_falsy:
  "\<not> truthy s \<or> s = VStr STATE_UNKNOWN \<Longrightarrow> FUNC_ICON_BATTERY uni s = Inr ''mdi:battery-50''"
  by (auto simp: FUNC_ICON_BATTERY_def)

text \<open>
  C9. \<^verbatim>\<open>FUNC_ICON_MOWER_ALERT\<close>: a falsy state gives the check icon; a truthy state that
  \<^verbatim>\<open>int\<close> rejects makes the call raise that exception, and the string \<open>STATE_ON\<close> is such a
  state, because the conversion comes before the comparison with \<open>STATE_ON\<close>; a state that
  \<^verbatim>\<open>int\<close> accepts gives the alert icon exactly when the integer is positive.
\<close>

theorem C9_mower_alert_icon:
  "(\<not> truthy s \<longrightarrow> FUNC_ICON_MOWER_ALERT uni s = Inr ''mdi:check-circle-outline'')
   \<and> (truthy s \<longrightarrow> (\<forall>e. py_int uni s = Inl e \<longrightarrow> FUNC_ICON_MOWER_ALERT uni s = Inl e))
   \<and> (truthy (VStr STATE_ON) \<and> FUNC_ICON_MOWER_ALERT uni (VStr STATE_ON) = Inl ValueError)
   \<and> (\<forall>n. py_int uni s = Inr n \<longrightarrow>
         FUNC_ICON_MOWER_ALERT uni s =
           Inr (if 0 < n then ''mdi:alert-outline'' else ''mdi:check-circle-outline''))"
proof -
  have falsy: "\<not> truthy s \<longrightarrow> FUNC_ICON_MOWER_ALERT uni s = Inr ''mdi:check-circle-outline''"
    by (simp add: FUNC_ICON_MOWER_ALERT_def)
  have raises: "truthy s \<longrightarrow>
      (\<forall>e. py_int uni s = Inl e \<longrightarrow> FUNC_ICON_MOWER_ALERT uni s = Inl e)"
    by (simp add: FUNC_ICON_MOWER_ALERT_def)
  have on: "truthy (VStr STATE_ON)
      \<and> FUNC_ICON_MOWER_ALERT uni (VStr STATE_ON) = Inl ValueError"
    using py_int_STATE_ON [of uni] by (simp add: FUNC_ICON_MOWER_ALERT_def STATE_ON_def)
  have parsed: "\<forall>n. py_int uni s = Inr n \<longrightarrow>
         FUNC_ICON_MOWER_ALERT uni s =
           Inr (if 0 < n then ''mdi:alert-outline'' else ''mdi:check-circle-outline'')"
  proof (intro allI impI)
    fix n assume n: "py_int uni s = Inr n"
    then have ne: "s \<noteq> VStr STATE_ON" using py_int_STATE_ON [of uni] by auto
    show "FUNC_ICON_MOWER_ALERT uni s =
           Inr (if 0 < n then ''mdi:alert-outline'' else ''mdi:check-circle-outline'')"
    proof (cases "truthy s")
      case True
      with n ne show ?thesis by (simp add: FUNC_ICON_MOWER_ALERT_def)
    next
      case False
      with n have "n = 0"
        by (cases s) (auto simp: is_ascii_def parse_int_def strip_def split: option.splits)
      with False show ?thesis by (simp add: FUNC_ICON_MOWER_ALERT_def)
    qed
  qed
  from falsy raises on parsed show ?thesis by blast
qed

theorem C9_mower_alert_icon_witness:
  "truthy (VStr ''mowing'') \<and> py_int (\<lambda>s. None) (VStr ''mowing'') = Inl ValueError
   \<and> FUNC_ICON_MOWER_ALERT (\<lambda>s. None) (VStr ''mowing'') = Inl ValueError
   \<and> \<not> truthy VNone
   \<and> FUNC_ICON_MOWER_ALERT (\<lambda>s. None) VNone = Inr ''mdi:check-circle-outline''
   \<and> py_int (\<lambda>s. None) (VStr ''2'') = Inr 2
   \<and> FUNC_ICON_MOWER_ALERT (\<lambda>s. None) (VStr ''2'') = Inr ''mdi:alert-outline''
   \<and> py_int (\<lambda>s. None) (VInt (- 1)) = Inr (- 1)
   \<and> FUNC_ICON_MOWER_ALERT (\<lambda>s. None) (VInt (- 1)) = Inr ''mdi:check-circle-outline''"
proof -
  have a: "truthy (VStr ''mowing'')" by simp
  have b: "py_int (\<lambda>s. None) (VStr ''mowing'') = Inl ValueError"
    by (simp add: is_ascii_def parse_int_def strip_def is_space_def parse_nat_def is_digit_def)
  have c: "py_int (\<lambda>s. None) (VStr ''2'') = Inr 2"
    by (simp add: is_ascii_def parse_int_def strip_def is_space_def parse_nat_def is_digit_def
        digit_val_def)
  have d: "py_int (\<lambda>s. None) (VInt (- 1)) = Inr (- 1)" by simp
  show ?thesis
    using a b c d
      C9_mower_alert_icon [where uni = "\<lambda>s. None" and s = "VStr ''mowing''"]
      C9_mower_alert_icon [where uni = "\<lambda>s. None" and s = VNone]
      C9_mower_alert_icon [where uni = "\<lambda>s. None" and s = "VStr ''2''"]
      C9_mower_alert_icon [where uni = "\<lambda>s. None" and s = "VInt (- 1)"]
    by simp
qed

text \<open>
  C10. \<^verbatim>\<open>FUNC_ICON_BATTERY\<close> at the integer state 0: the integer 0 is falsy, so the guard
  \<^verbatim>\<open>if state and not state == STATE_UNKNOWN\<close> sends it to the default icon
  \<open>mdi:battery-50\<close>, and the branch \<^verbatim>\<open>if state == 0\<close> that returns \<open>mdi:battery-outline\<close>
  is reached only by a truthy state that converts to 0, such as the string \<open>0\<close>.
\<close>

theorem C10_battery_icon_zero:
  "FUNC_ICON_BATTERY uni (VInt 0) = Inr ''mdi:battery-50''
   \<and> FUNC_ICON_BATTERY uni (VStr ''0'') = Inr ''mdi:battery-outline''"
  by (simp add: FUNC_ICON_BATTERY_def STATE_UNKNOWN_def is_ascii_def parse_int_def strip_def
      is_space_def parse_nat_def is_digit_def digit_val_def)

section \<open>Frame facts\<close>

lemma run_keeps:
  assumes "\<And>s h. s \<in> set ss \<Longrightarrow> f (snd (s h)) = f h"
  shows "f (snd (run ss h)) = f h"
  using assms
proof (induction ss arbitrary: h)
  case Nil
  then show ?case by simp
next
  case (Cons s ss)
  obtain r h' where sh: "s h = (r, h')" by (cases "s h")
  have keep: "f h' = f h" using Cons.prems [of s h] sh by simp
  show ?case
  proof (cases r)
    case None
    have "f (snd (run ss h')) = f h'" using Cons.IH Cons.prems by simp
    with None sh keep show ?thesis by simp
  next
    case (Some e)
    with sh keep show ?thesis by simp
  qed
qed

lemma await_indego_frame [simp]:
  "hass (snd (await_indego env a h)) = hass h"
  "shutdown (snd (await_indego env a h)) = shutdown h"
  "entities (snd (await_indego env a h)) = entities h"
  "refresh_state_task (snd (await_indego env a h)) = refresh_state_task h"
  "refresh_5m_remover (snd (await_indego env a h)) = refresh_5m_remover h"
  "refresh_60m_remover (snd (await_indego env a h)) = refresh_60m_remover h"
  by (simp_all add: await_indego_def split: sum.splits)

lemma await_indego_calls [simp]:
  "calls (indego (snd (await_indego env a h))) = calls (indego h) @ [a]"
  by (simp add: await_indego_def split: sum.splits)

lemma await_indego_result:
  "fst (await_indego env a h) =
     (case respond env a (indego h) of Inl e \<Rightarrow> Some e | Inr cl \<Rightarrow> None)"
  by (simp add: await_indego_def split: sum.splits)


lemma set_state_frame [simp]:
  "hass (snd (set_state k v h)) = hass h"
  "shutdown (snd (set_state k v h)) = shutdown h"
  "indego (snd (set_state k v h)) = indego h"
  "refresh_state_task (snd (set_state k v h)) = refresh_state_task h"
  "refresh_5m_remover (snd (set_state k v h)) = refresh_5m_remover h"
  "refresh_60m_remover (snd (set_state k v h)) = refresh_60m_remover h"
  by (simp_all add: set_state_def split: option.splits)

lemma add_attribute_frame [simp]:
  "hass (snd (add_attribute k kvs h)) = hass h"
  "shutdown (snd (add_attribute k kvs h)) = shutdown h"
  "indego (snd (add_attribute k kvs h)) = indego h"
  "refresh_state_task (snd (add_attribute k kvs h)) = refresh_state_task h"
  "refresh_5m_remover (snd (add_attribute k kvs h)) = refresh_5m_remover h"
  "refresh_60m_remover (snd (add_attribute k kvs h)) = refresh_60m_remover h"
  by (simp_all add: add_attribute_def split: option.splits)

lemma set_state_other [simp]:
  "k' \<noteq> k \<Longrightarrow> entities (snd (set_state k v h)) k' = entities h k'"
  by (simp add: set_state_def split: option.splits)

lemma add_attribute_other [simp]:
  "k' \<noteq> k \<Longrightarrow> entities (snd (add_attribute k kvs h)) k' = entities h k'"
  by (simp add: add_attribute_def split: option.splits)

lemma host_frame [simp]:
  "hass (host x h) = hass h @ [x]"
  "shutdown (host x h) = shutdown h"
  "indego (host x h) = indego h"
  "entities (host x h) = entities h"
  "refresh_state_task (host x h) = refresh_state_task h"
  "refresh_5m_remover (host x h) = refresh_5m_remover h"
  "refresh_60m_remover (host x h) = refresh_60m_remover h"
  by (simp_all add: host_def)

text \<open>A method that awaits one call of the client and then only touches entities.\<close>

lemma run_await_calls:
  assumes "\<And>s h. s \<in> set rest \<Longrightarrow> indego (snd (s h)) = indego h"
  shows "calls (indego (snd (run (await_indego env a # rest) h))) = calls (indego h) @ [a]"
proof -
  obtain r h1 where aw: "await_indego env a h = (r, h1)" by (cases "await_indego env a h")
  have c1: "calls (indego h1) = calls (indego h) @ [a]"
    using await_indego_calls [of env a h] aw by simp
  show ?thesis
  proof (cases r)
    case None
    have "indego (snd (run rest h1)) = indego h1" using assms by (rule run_keeps)
    with None aw c1 show ?thesis by simp
  next
    case (Some e)
    with aw c1 show ?thesis by simp
  qed
qed

lemma hub_update_operating_data_calls:
  "calls (indego (snd (hub_update_operating_data c env h))) =
     calls (indego h) @ [update_operating_data]"
  unfolding hub_update_operating_data_def by (rule run_await_calls) auto

lemma hub_update_generic_data_calls:
  "calls (indego (snd (hub_update_generic_data c env h))) =
     calls (indego h) @ [update_generic_data]"
  unfolding hub_update_generic_data_def by (rule run_await_calls) auto

lemma hub_update_alerts_calls:
  "calls (indego (snd (hub_update_alerts c env h))) = calls (indego h) @ [update_alerts]"
  unfolding hub_update_alerts_def by (rule run_await_calls) auto

lemma hub_update_updates_available_calls:
  "calls (indego (snd (hub_update_updates_available c env h))) =
     calls (indego h) @ [update_updates_available]"
  unfolding hub_update_updates_available_def by (rule run_await_calls) auto

lemma hub_update_last_completed_mow_calls:
  "calls (indego (snd (hub_update_last_completed_mow c env h))) =
     calls (indego h) @ [update_last_completed_mow]"
  unfolding hub_update_last_completed_mow_def by (rule run_await_calls) auto

lemma hub_update_next_mow_calls:
  "calls (indego (snd (hub_update_next_mow c env h))) = calls (indego h) @ [update_next_mow]"
  unfolding hub_update_next_mow_def by (rule run_await_calls) auto

text \<open>None of the update methods touches the host, the flag or the handles.\<close>

lemma control_steps [simp]:
  "control (snd (await_indego env a h)) = control h"
  "control (snd (set_state k v h)) = control h"
  "control (snd (add_attribute k kvs h)) = control h"
  by (simp_all add: control_def)

lemma hub_update_operating_data_control [simp]:
  "control (snd (hub_update_operating_data c env h)) = control h"
  unfolding hub_update_operating_data_def by (rule run_keeps) auto

lemma hub_update_generic_data_control [simp]:
  "control (snd (hub_update_generic_data c env h)) = control h"
  unfolding hub_update_generic_data_def by (rule run_keeps) auto

lemma hub_update_alerts_control [simp]:
  "control (snd (hub_update_alerts c env h)) = control h"
  unfolding hub_update_alerts_def by (rule run_keeps) auto


lemma hub_update_last_completed_mow_control [simp]:
  "control (snd (hub_update_last_completed_mow c env h)) = control h"
  unfolding hub_update_last_completed_mow_def by (rule run_keeps) auto

lemma hub_update_next_mow_control [simp]:
  "control (snd (hub_update_next_mow c env h)) = control h"
  unfolding hub_update_next_mow_def by (rule run_keeps) auto

lemma state_updates_indego:
  "s \<in> set (state_updates c env) \<Longrightarrow> indego (snd (s h)) = indego h"
  by (auto simp: state_updates_def)

lemma state_updates_control:
  "s \<in> set (state_updates c env) \<Longrightarrow> control (snd (s h)) = control h"
  by (auto simp: state_updates_def)


lemma hub_update_state_calls:
  "calls (indego (snd (hub_update_state c env h))) = calls (indego h) @ [update_state True 300]"
proof -
  obtain r h1 where aw: "await_indego env (update_state True 300) h = (r, h1)"
    by (cases "await_indego env (update_state True 300) h")
  have c1: "calls (indego h1) = calls (indego h) @ [update_state True 300]"
    using await_indego_calls [of env "update_state True 300" h] aw by simp
  have "indego (snd (run (state_updates c env) h1)) = indego h1"
    by (rule run_keeps) (rule state_updates_indego)
  with aw c1 show ?thesis by (cases r) (simp_all add: hub_update_state_def)
qed

lemma hub_update_state_control [simp]:
  "control (snd (hub_update_state c env h)) = control h"
proof -
  obtain r h1 where aw: "await_indego env (update_state True 300) h = (r, h1)"
    by (cases "await_indego env (update_state True 300) h")
  have c1: "control h1 = control h"
    using control_steps(1) [of env "update_state True 300" h] aw by simp
  have "control (snd (run (state_updates c env) h1)) = control h1"
    by (rule run_keeps) (rule state_updates_control)
  with aw c1 show ?thesis by (cases r) (simp_all add: hub_update_state_def)
qed


lemma hub_update_state_after_shutdown:
  assumes "shutdown h"
  shows "entities (snd (hub_update_state c env h)) = entities h"
proof -
  obtain r h1 where aw: "await_indego env (update_state True 300) h = (r, h1)"
    by (cases "await_indego env (update_state True 300) h")
  have "entities h1 = entities h" "shutdown h1 = shutdown h"
    using await_indego_frame(2,3) [of env "update_state True 300" h] aw by simp_all
  with aw assms show ?thesis by (cases r) (simp_all add: hub_update_state_def)
qed


lemma control_fields:
  "control h' = control h \<Longrightarrow>
     hass h' = hass h \<and> shutdown h' = shutdown h \<and> refresh_state_task h' = refresh_state_task h
     \<and> refresh_5m_remover h' = refresh_5m_remover h
     \<and> refresh_60m_remover h' = refresh_60m_remover h"
  by (simp add: control_def)

section \<open>The entity table\<close>

lemma update_fresh: "k \<notin> fst ` set al \<Longrightarrow> AList.update k v al = al @ [(k, v)]"
  by (induction al) auto

lemma fold_update_distinct:
  "distinct (map fst (acc @ kvs)) \<Longrightarrow> fold (\<lambda>(k, v). AList.update k v) kvs acc = acc @ kvs"
proof (induction kvs arbitrary: acc)
  case Nil
  then show ?case by simp
next
  case (Cons kv kvs)
  obtain k v where kv: "kv = (k, v)" by (cases kv)
  from Cons.prems kv have fresh: "k \<notin> fst ` set acc" by auto
  from Cons.prems kv have "distinct (map fst ((acc @ [(k, v)]) @ kvs))" by simp
  then have "fold (\<lambda>(k, v). AList.update k v) kvs (acc @ [(k, v)]) = (acc @ [(k, v)]) @ kvs"
    by (rule Cons.IH)
  with fresh kv show ?case by (simp add: update_fresh)
qed

lemma dict_display_distinct: "distinct (map fst kvs) \<Longrightarrow> dict_display kvs = kvs"
  using fold_update_distinct [of "[]" kvs] by (simp add: dict_display_def)

lemma display_keys: "map fst (entity_definitions_display c) = map (val c) entity_names"
  by (simp add: entity_definitions_display_def entity_names_def)

lemma entity_definitions_distinct:
  "distinct_consts c \<Longrightarrow> entity_definitions c = entity_definitions_display c"
  by (simp add: entity_definitions_def dict_display_distinct display_keys distinct_consts_def)

lemma create_entities_loop_spec:
  assumes "distinct (map fst items)"
    and "list_all (\<lambda>kd. spec_entity c ser (name @ '' '' @ conf_name (snd kd)) kd \<noteq> None) items"
  shows "create_entities_loop c ser name items m =
           Inr (\<lambda>k. case map_of items k of
                       None \<Rightarrow> m k
                     | Some d \<Rightarrow> spec_entity c ser (name @ '' '' @ conf_name d) (k, d))"
  using assms
proof (induction items arbitrary: m)
  case Nil
  then show ?case by simp
next
  case (Cons kd items)
  obtain k d where kd: "kd = (k, d)" by (cases kd)
  from Cons.prems kd have fresh: "map_of items k = None"
    by (simp add: map_of_eq_None_iff)
  from Cons.prems kd obtain e
    where e: "spec_entity c ser (name @ '' '' @ conf_name d) (k, d) = Some e"
    by auto
  have IH: "create_entities_loop c ser name items (m(k \<mapsto> e)) =
              Inr (\<lambda>k'. case map_of items k' of
                           None \<Rightarrow> (m(k \<mapsto> e)) k'
                         | Some d' \<Rightarrow> spec_entity c ser (name @ '' '' @ conf_name d') (k', d'))"
    using Cons.IH Cons.prems by simp
  have step: "create_entities_loop c ser name ((k, d) # items) m =
                create_entities_loop c ser name items (m(k \<mapsto> e))"
    using e by (auto split: if_splits option.splits)
  have "(\<lambda>k'. case map_of items k' of
                 None \<Rightarrow> (m(k \<mapsto> e)) k'
               | Some d' \<Rightarrow> spec_entity c ser (name @ '' '' @ conf_name d') (k', d')) =
        (\<lambda>k'. case map_of ((k, d) # items) k' of
                 None \<Rightarrow> m k'
               | Some d' \<Rightarrow> spec_entity c ser (name @ '' '' @ conf_name d') (k', d'))"
  proof
    fix k'
    show "(case map_of items k' of
             None \<Rightarrow> (m(k \<mapsto> e)) k'
           | Some d' \<Rightarrow> spec_entity c ser (name @ '' '' @ conf_name d') (k', d')) =
          (case map_of ((k, d) # items) k' of
             None \<Rightarrow> m k'
           | Some d' \<Rightarrow> spec_entity c ser (name @ '' '' @ conf_name d') (k', d'))"
    proof (cases "k' = k")
      case True
      with fresh e show ?thesis by (simp del: spec_entity.simps)
    next
      case False
      then show ?thesis by (simp del: spec_entity.simps split: option.splits)
    qed
  qed
  with IH step kd show ?case by (simp del: spec_entity.simps create_entities_loop.simps)
qed

lemma distinct_consts_types:
  "distinct_consts c \<Longrightarrow> val c BINARY_SENSOR_TYPE \<noteq> val c SENSOR_TYPE"
  by (auto simp: distinct_consts_def)

lemma display_spec:
  assumes "distinct_consts c"
  shows "list_all (\<lambda>kd. spec_entity c ser (name @ '' '' @ conf_name (snd kd)) kd \<noteq> None)
           (entity_definitions_display c)"
  using distinct_consts_types [OF assms] by (simp add: entity_definitions_display_def)

lemma create_entities_spec:
  assumes "distinct_consts c"
  shows "create_entities c ser name =
           Inr (\<lambda>k. case map_of (entity_definitions c) k of
                       None \<Rightarrow> None
                     | Some d \<Rightarrow> spec_entity c ser (name @ '' '' @ conf_name d) (k, d))"
proof -
  have "distinct (map fst (entity_definitions_display c))"
    using assms by (simp add: display_keys distinct_consts_def)
  then show ?thesis
    using create_entities_loop_spec [OF _ display_spec [OF assms], of ser name Map.empty]
    by (simp add: create_entities_def entity_definitions_distinct [OF assms])
qed

lemma display_types:
  assumes "distinct_consts c"
  shows "length (filter (\<lambda>kd. conf_type (snd kd) = val c BINARY_SENSOR_TYPE)
           (entity_definitions c)) = 3"
    and "length (filter (\<lambda>kd. conf_type (snd kd) = val c SENSOR_TYPE)
           (entity_definitions c)) = 9"
  using distinct_consts_types [OF assms]
  by (simp_all add: entity_definitions_distinct [OF assms] entity_definitions_display_def)

lemma distinct_sample: "distinct_consts sample_consts"
  by (simp add: distinct_consts_def sample_consts_def sample_val_def entity_names_def)

lemma sample_entities_eq:
  "create_entities sample_consts ''505703041'' ''Indego'' = Inr sample_entities"
proof -
  have "sample_entities =
          (\<lambda>k. case map_of (entity_definitions sample_consts) k of
                  None \<Rightarrow> None
                | Some d \<Rightarrow>
                    spec_entity sample_consts ''505703041'' (''Indego'' @ '' '' @ conf_name d)
                      (k, d))"
    by (rule ext) (simp only: sample_entities_def entity_definitions_distinct [OF distinct_sample])
  then show ?thesis using create_entities_spec [OF distinct_sample] by simp
qed

lemma sample_hub_made:
  "IndegoHub sample_consts sample_env ''Indego'' ''user'' ''secret'' ''505703041'' False [] =
     Inr sample_hub"
  by (simp add: IndegoHub_def sample_entities_eq sample_hub_def sample_env_def
      sample_client_def)

text \<open>
  C8, as amended. When the keys of the table are pairwise different and the two type tags
  differ, \<^verbatim>\<open>create_entities\<close> returns a mapping whose keys are exactly the twelve keys of
  \<^verbatim>\<open>entity_definitions\<close> (three binary sensor entries, nine sensor entries); each
  sensor-typed definition yields an \<^verbatim>\<open>IndegoSensor\<close> and each binary-sensor typed one an
  \<^verbatim>\<open>IndegoBinarySensor\<close>, with the identifier \<^verbatim>\<open>indego_{serial}_{entity_key}\<close>, the icon,
  device class, unit and attribute list of its definition, and as its name the mower's
  name, a space and the name of its definition.
\<close>

theorem C8_entity_table:
  assumes "distinct_consts c"
  shows "\<exists>ents. create_entities c ser name = Inr ents
           \<and> dom ents = set (map fst (entity_definitions c))
           \<and> card (dom ents) = 12
           \<and> length (filter (\<lambda>kd. conf_type (snd kd) = val c BINARY_SENSOR_TYPE)
                (entity_definitions c)) = 3
           \<and> length (filter (\<lambda>kd. conf_type (snd kd) = val c SENSOR_TYPE)
                (entity_definitions c)) = 9
           \<and> list_all
                (\<lambda>kd. ents (fst kd) \<noteq> None
                   \<and> ents (fst kd) =
                       spec_entity c ser (name @ '' '' @ conf_name (snd kd)) kd)
                (entity_definitions c)"
proof -
  let ?defs = "entity_definitions c"
  let ?ents = "\<lambda>k. case map_of ?defs k of
                       None \<Rightarrow> None
                     | Some d \<Rightarrow> spec_entity c ser (name @ '' '' @ conf_name d) (k, d)"
  have defs: "?defs = entity_definitions_display c"
    by (rule entity_definitions_distinct [OF assms])
  have keys: "map fst ?defs = map (val c) entity_names"
    by (simp add: defs display_keys)
  have dist: "distinct (map fst ?defs)"
    using assms by (simp add: keys distinct_consts_def)
  have spec: "list_all (\<lambda>kd. spec_entity c ser (name @ '' '' @ conf_name (snd kd)) kd \<noteq> None)
                ?defs"
    using display_spec [OF assms] by (simp add: defs)
  have at: "?ents (fst kd) = spec_entity c ser (name @ '' '' @ conf_name (snd kd)) kd"
    if "kd \<in> set ?defs" for kd
  proof -
    obtain k d where kd: "kd = (k, d)" by (cases kd)
    with that dist have "map_of ?defs k = Some d" by simp
    with kd show ?thesis by (simp del: spec_entity.simps)
  qed
  have some: "?ents (fst kd) \<noteq> None" if "kd \<in> set ?defs" for kd
    using at [OF that] spec that by (simp add: list_all_iff del: spec_entity.simps)
  have dom: "dom ?ents = set (map fst ?defs)"
  proof
    show "dom ?ents \<subseteq> set (map fst ?defs)"
      by (auto simp: dom_def map_of_eq_None_iff split: option.splits simp del: spec_entity.simps)
    show "set (map fst ?defs) \<subseteq> dom ?ents"
      using some by (auto simp: dom_def simp del: spec_entity.simps)
  qed
  have card: "card (dom ?ents) = 12"
    using dist by (simp add: dom distinct_card keys entity_names_def del: set_map)
  have all: "list_all (\<lambda>kd. ?ents (fst kd) \<noteq> None
               \<and> ?ents (fst kd) = spec_entity c ser (name @ '' '' @ conf_name (snd kd)) kd)
             ?defs"
    using at some by (simp add: list_all_iff del: spec_entity.simps)
  from create_entities_spec [OF assms] dom card display_types [OF assms] all
  show ?thesis by blast
qed

theorem C8_entity_table_witness:
  "distinct_consts sample_consts
   \<and> (\<exists>ents. create_entities sample_consts ''505703041'' ''Indego'' = Inr ents
         \<and> dom ents = set (map fst (entity_definitions sample_consts))
         \<and> card (dom ents) = 12
         \<and> list_all
              (\<lambda>kd. ents (fst kd) \<noteq> None
                 \<and> ents (fst kd) =
                     spec_entity sample_consts ''505703041''
                       (''Indego'' @ '' '' @ conf_name (snd kd)) kd)
              (entity_definitions sample_consts))"
  using C8_entity_table [OF distinct_sample, of "''505703041''" "''Indego''"] distinct_sample
  by blast

lemma sample_online: "map_of (entity_definitions sample_consts) ''online'' =
    Some \<lparr>conf_type = ''binary_sensor'', conf_name = ''online'',
          conf_icon = Icon ''mdi:cloud-check'',
          conf_device_class = Some DEVICE_CLASS_CONNECTIVITY,
          conf_unit_of_measurement = None, conf_attr = []\<rparr>"
  unfolding entity_definitions_distinct [OF distinct_sample]
  by (simp add: entity_definitions_display_def sample_consts_def sample_val_def)

lemma sample_online_entity:
  "spec_entity sample_consts ser nm
     (''online'',
      \<lparr>conf_type = ''binary_sensor'', conf_name = ''online'',
       conf_icon = Icon ''mdi:cloud-check'',
       conf_device_class = Some DEVICE_CLASS_CONNECTIVITY,
       conf_unit_of_measurement = None, conf_attr = []\<rparr>) =
     Some (new_entity (IndegoBinarySensor ser (''indego_'' @ ser @ ''_online'') nm
             (Icon ''mdi:cloud-check'') (Some ''connectivity'') []))"
  by (simp add: sample_consts_def sample_val_def DEVICE_CLASS_CONNECTIVITY_def)

text \<open>
  The name of an entity is not the name in its definition: for the mower named
  \<open>Indego\<close> the entity under the key \<open>online\<close> is named \<open>Indego online\<close>, while its
  definition says \<open>online\<close>.
\<close>

theorem C8_entity_name_counterexample:
  "(case create_entities sample_consts ''505703041'' ''Indego'' of
      Inl e \<Rightarrow> None
    | Inr ents \<Rightarrow> ents ''online'') =
     Some (new_entity (IndegoBinarySensor ''505703041'' ''indego_505703041_online''
             ''Indego online'' (Icon ''mdi:cloud-check'') (Some ''connectivity'') []))
   \<and> (case create_entities sample_consts ''505703041'' ''Indego'' of
         Inl e \<Rightarrow> None
       | Inr ents \<Rightarrow> ents ''online'') \<noteq>
       (case map_of (entity_definitions sample_consts) ''online'' of
          None \<Rightarrow> None
        | Some d \<Rightarrow> spec_entity sample_consts ''505703041'' (conf_name d) (''online'', d))"
  by (simp add: create_entities_spec [OF distinct_sample] sample_online sample_online_entity
      new_entity_def del: spec_entity.simps)

section \<open>The state refresh loop\<close>

lemma control_hass: "control h' = control h \<Longrightarrow> hass h' = hass h"
  and control_shutdown: "control h' = control h \<Longrightarrow> shutdown h' = shutdown h"
  by (simp_all add: control_def)

lemma async_refresh_state_cases:
  obtains
    (raised) e h1 where "hub_update_state c env h = (Some e, h1)"
      "async_refresh_state c env h = (Some e, h1)"
  | (stopped) h1 where "hub_update_state c env h = (None, h1)" "shutdown h"
      "async_refresh_state c env h = (None, h1)"
  | (idle) h1 where "hub_update_state c env h = (None, h1)" "\<not> shutdown h"
      "\<not> needs_operating_data (indego h1)"
      "async_refresh_state c env h =
         (None, host (Create_task (Coroutine Cb_async_refresh_state))
                  (h1\<lparr>refresh_state_task := Some (length (hass h))\<rparr>))"
  | (failed) h1 e h2 where "hub_update_state c env h = (None, h1)" "\<not> shutdown h"
      "needs_operating_data (indego h1)"
      "hub_update_operating_data c env h1 = (Some e, h2)"
      "async_refresh_state c env h = (Some e, h2)"
  | (active) h1 h2 where "hub_update_state c env h = (None, h1)" "\<not> shutdown h"
      "needs_operating_data (indego h1)"
      "hub_update_operating_data c env h1 = (None, h2)"
      "async_refresh_state c env h =
         (None, host (Create_task (Coroutine Cb_async_refresh_state))
                  (h2\<lparr>refresh_state_task := Some (length (hass h))\<rparr>))"
proof -
  obtain r1 h1 where u1: "hub_update_state c env h = (r1, h1)"
    by (cases "hub_update_state c env h")
  have c1: "control h1 = control h"
    using hub_update_state_control [of c env h] u1 by simp
  obtain r2 h2 where u2: "hub_update_operating_data c env h1 = (r2, h2)"
    by (cases "hub_update_operating_data c env h1")
  have c2: "control h2 = control h"
    using hub_update_operating_data_control [of c env h1] u2 c1 by simp
  show ?thesis
  proof (cases r1)
    case (Some e)
    with u1 show ?thesis by (intro raised [of e h1]) (simp_all add: async_refresh_state_def)
  next
    case None
    note r1 = this
    show ?thesis
    proof (cases "shutdown h")
      case True
      with r1 u1 control_shutdown [OF c1] show ?thesis
        by (intro stopped [of h1]) (simp_all add: async_refresh_state_def)
    next
      case False
      note sd = this
      show ?thesis
      proof (cases "needs_operating_data (indego h1)")
        case False
        with r1 sd u1 control_shutdown [OF c1] control_hass [OF c1] show ?thesis
          by (intro idle [of h1]) (simp_all add: async_refresh_state_def)
      next
        case True
        note nd = this
        show ?thesis
        proof (cases r2)
          case (Some e)
          with r1 sd nd u1 u2 control_shutdown [OF c1] show ?thesis
            by (intro failed [of h1 e h2]) (simp_all add: async_refresh_state_def)
        next
          case None
          with r1 sd nd u1 u2 control_shutdown [OF c1] control_hass [OF c2] show ?thesis
            by (intro active [of h1 h2]) (simp_all add: async_refresh_state_def)
        qed
      qed
    qed
  qed
qed

lemma needs_operating_data_calls [simp]:
  "needs_operating_data (cl\<lparr>calls := xs\<rparr>) = needs_operating_data cl"
  by (simp add: needs_operating_data_def)


lemma async_refresh_state_calls:
  "calls (indego (snd (async_refresh_state c env h))) =
     calls (indego h) @ update_state True 300 #
       (if fst (hub_update_state c env h) = None \<and> \<not> shutdown h
           \<and> needs_operating_data (indego (snd (hub_update_state c env h)))
        then [update_operating_data] else [])"
proof (cases rule: async_refresh_state_cases [of c env h])
  case (raised e h1)
  with hub_update_state_calls [of c env h] show ?thesis by simp
next
  case (stopped h1)
  with hub_update_state_calls [of c env h] show ?thesis by simp
next
  case (idle h1)
  with hub_update_state_calls [of c env h] show ?thesis by simp
next
  case (failed h1 e h2)
  with hub_update_state_calls [of c env h] hub_update_operating_data_calls [of c env h1]
  show ?thesis by simp
next
  case (active h1 h2)
  with hub_update_state_calls [of c env h] hub_update_operating_data_calls [of c env h1]
  show ?thesis by simp
qed


section \<open>When the updates return\<close>

lemma set_state_present [simp]:
  "(entities (snd (set_state k v h)) k' = None) = (entities h k' = None)"
  by (simp add: set_state_def split: option.splits)

lemma add_attribute_present [simp]:
  "(entities (snd (add_attribute k kvs h)) k' = None) = (entities h k' = None)"
  by (simp add: add_attribute_def split: option.splits)


lemma present_set_state [simp]:
  "entities_present c h \<Longrightarrow> n \<in> set entity_names \<Longrightarrow> fst (set_state (val c n) v h) = None"
  by (auto simp: entities_present_def list_all_iff set_state_def split: option.splits)

lemma present_add_attribute [simp]:
  "entities_present c h \<Longrightarrow> n \<in> set entity_names \<Longrightarrow>
     fst (add_attribute (val c n) kvs h) = None"
  by (auto simp: entities_present_def list_all_iff add_attribute_def split: option.splits)












section \<open>The sample installation\<close>





section \<open>The batch loops\<close>

lemma gather_keeps:
  assumes "\<And>s h. s \<in> set ss \<Longrightarrow> f (snd (s h)) = f h"
  shows "f (snd (gather ss h)) = f h"
  using assms
proof (induction ss arbitrary: h)
  case Nil
  then show ?case by simp
next
  case (Cons s ss)
  obtain r h1 where sh: "s h = (r, h1)" by (cases "s h")
  obtain rs h2 where g: "gather ss h1 = (rs, h2)" by (cases "gather ss h1")
  have "f h1 = f h" using Cons.prems [of s h] sh by simp
  moreover have "f h2 = f h1" using Cons.IH [of h1] Cons.prems g by simp
  ultimately show ?case using sh g by simp
qed

lemma isinstance_simps [simp]:
  "isinstance e Exception"
  "isinstance e ServerTimeoutError = (e = ServerTimeoutError)"
  "isinstance e TooManyRedirects = (e = TooManyRedirects)"
  "isinstance e ClientResponseError = (e = ClientResponseError \<or> e = TooManyRedirects)"
  by (auto simp: isinstance_def)

lemma randint_range: "a \<le> b \<Longrightarrow> a \<le> randint env a b k \<and> randint env a b k \<le> b"
proof -
  assume ab: "a \<le> b"
  then have "0 < nat (b - a + 1)" by simp
  then have "random_raw env k mod nat (b - a + 1) < nat (b - a + 1)" by (rule mod_less_divisor)
  then have "int (random_raw env k mod nat (b - a + 1)) < b - a + 1" using ab by linarith
  then show ?thesis by (simp add: randint_def)
qed

lemma results_loop_total:
  assumes "next_refresh = 300 \<or> (60 \<le> next_refresh \<and> next_refresh \<le> 90)"
  shows "\<exists>d. results_loop env results k next_refresh = Inr d
           \<and> (if Some ServerTimeoutError \<in> set results \<or> Some TooManyRedirects \<in> set results
               then 60 \<le> d \<and> d \<le> 90 else d = next_refresh)"
  using assms
proof (induction results arbitrary: k next_refresh)
  case Nil
  then show ?case by simp
next
  case (Cons r results)
  show ?case
  proof (cases r)
    case None
    with Cons.IH [OF Cons.prems, of k] show ?thesis by simp
  next
    case (Some e)
    show ?thesis
    proof (cases "e = ServerTimeoutError \<or> e = TooManyRedirects")
      case True
      let ?n = "60 + randint env 0 30 k"
      have rng: "60 \<le> ?n \<and> ?n \<le> 90" using randint_range [of 0 30 env k] by simp
      then obtain d where d: "results_loop env results (Suc k) ?n = Inr d"
        "if Some ServerTimeoutError \<in> set results \<or> Some TooManyRedirects \<in> set results
         then 60 \<le> d \<and> d \<le> 90 else d = ?n"
        using Cons.IH [of ?n "Suc k"] by blast
      have "60 \<le> d \<and> d \<le> 90" using d(2) rng by (simp split: if_splits)
      with True Some d(1) show ?thesis by auto
    next
      case False
      with Some Cons.IH [OF Cons.prems, of k] show ?thesis by auto
    qed
  qed
qed


lemma refresh_5m_gather_control:
  "control (snd (gather [hub_update_generic_data c env, hub_update_alerts c env,
      hub_update_last_completed_mow c env, hub_update_next_mow c env] h)) = control h"
  by (rule gather_keeps) auto

text \<open>
  C4. Every run of \<^verbatim>\<open>refresh_5m\<close> returns normally, whatever the four update calls raised,
  and schedules the next run: 60 to 90 seconds later when one of the gathered results is
  a \<^verbatim>\<open>ServerTimeoutError\<close> or a \<^verbatim>\<open>TooManyRedirects\<close>, and 300 seconds later otherwise.
\<close>

theorem C4_refresh_5m_always_reschedules:
  "fst (refresh_5m c env h) = None
   \<and> (\<exists>d. hass (snd (refresh_5m c env h)) = hass h @ [Call_later d Cb_refresh_5m]
         \<and> refresh_5m_remover (snd (refresh_5m c env h)) = Some (length (hass h))
         \<and> (if Some ServerTimeoutError \<in>
                 set (fst (gather [hub_update_generic_data c env, hub_update_alerts c env,
                        hub_update_last_completed_mow c env, hub_update_next_mow c env] h))
               \<or> Some TooManyRedirects \<in>
                 set (fst (gather [hub_update_generic_data c env, hub_update_alerts c env,
                        hub_update_last_completed_mow c env, hub_update_next_mow c env] h))
             then 60 \<le> d \<and> d \<le> 90 else d = 300))"
proof -
  let ?g = "gather [hub_update_generic_data c env, hub_update_alerts c env,
              hub_update_last_completed_mow c env, hub_update_next_mow c env] h"
  obtain results h1 where g: "?g = (results, h1)" by (cases ?g)
  have "control h1 = control h" using refresh_5m_gather_control [of c env h] g by simp
  then have hs: "hass h1 = hass h" by (simp add: control_def)
  obtain d where d: "results_loop env results 0 300 = Inr d"
    "if Some ServerTimeoutError \<in> set results \<or> Some TooManyRedirects \<in> set results
     then 60 \<le> d \<and> d \<le> 90 else d = 300"
    using results_loop_total [of 300 env results 0] by auto
  have "refresh_5m c env h =
          (None, host (Call_later d Cb_refresh_5m)
                   (h1\<lparr>refresh_5m_remover := Some (length (hass h1))\<rparr>))"
    using g d(1) by (simp add: refresh_5m_def)
  with hs d(2) g show ?thesis by auto
qed

theorem C4_refresh_5m_always_reschedules_witness:
  "fst (refresh_5m sample_consts (raising update_alerts ServerTimeoutError) sample_hub) = None
   \<and> (\<exists>d. hass (snd (refresh_5m sample_consts (raising update_alerts ServerTimeoutError)
                       sample_hub)) = [Call_later d Cb_refresh_5m])"
  using C4_refresh_5m_always_reschedules
          [of sample_consts "raising update_alerts ServerTimeoutError" sample_hub]
  by (auto simp: sample_hub_def)





section \<open>Shutdown\<close>

lemma async_shutdown_returns:
  assumes "case refresh_state_task h of None \<Rightarrow> True | Some t \<Rightarrow> task_outcome env t = None"
  shows "shutdown (snd (async_shutdown env h))
   \<and> hass (snd (async_shutdown env h)) =
       hass h
       @ (case refresh_state_task h of None \<Rightarrow> [] | Some t \<Rightarrow> [Task_cancel t, Task_await t])
       @ (case refresh_5m_remover h of None \<Rightarrow> [] | Some r \<Rightarrow> [Remover_call r])
       @ (case refresh_60m_remover h of None \<Rightarrow> [] | Some r \<Rightarrow> [Remover_call r])
   \<and> calls (indego (snd (async_shutdown env h))) = calls (indego h) @ [close]
   \<and> entities (snd (async_shutdown env h)) = entities h"
proof (cases "refresh_state_task h")
  case None
  then show ?thesis
    by (simp add: async_shutdown_def await_indego_def host_def split: option.splits sum.splits)
next
  case (Some t)
  with assms have "task_outcome env t = None" by simp
  with Some show ?thesis
    by (simp add: async_shutdown_def await_indego_def host_def split: option.splits sum.splits)
qed

lemma async_shutdown_raises:
  assumes "refresh_state_task h = Some t" "task_outcome env t = Some e"
  shows "async_shutdown env h =
           (Some e, host (Task_await t) (host (Task_cancel t) (h\<lparr>shutdown := True\<rparr>)))"
  using assms by (simp add: async_shutdown_def)

lemma async_refresh_state_after_shutdown:
  assumes "shutdown h"
  shows "hass (snd (async_refresh_state c env h)) = hass h"
    and "refresh_state_task (snd (async_refresh_state c env h)) = refresh_state_task h"
    and "entities (snd (async_refresh_state c env h)) = entities h"
    and "shutdown (snd (async_refresh_state c env h))"
proof -
  have c1: "control (snd (hub_update_state c env h)) = control h" by simp
  have e1: "entities (snd (hub_update_state c env h)) = entities h"
    using assms by (rule hub_update_state_after_shutdown)
  have "snd (async_refresh_state c env h) = snd (hub_update_state c env h)"
  proof (cases rule: async_refresh_state_cases [of c env h])
    case (raised e h1)
    then show ?thesis by simp
  next
    case (stopped h1)
    then show ?thesis by simp
  next
    case (idle h1)
    with assms show ?thesis by simp
  next
    case (failed h1 e h2)
    with assms show ?thesis by simp
  next
    case (active h1 h2)
    with assms show ?thesis by simp
  qed
  with c1 e1 assms
  show "hass (snd (async_refresh_state c env h)) = hass h"
    and "refresh_state_task (snd (async_refresh_state c env h)) = refresh_state_task h"
    and "entities (snd (async_refresh_state c env h)) = entities h"
    and "shutdown (snd (async_refresh_state c env h))"
    by (simp_all add: control_def)
qed

lemma after_shutdown:
  assumes "shutdown h"
  shows "hass (snd (async_refresh_state c env h)) = hass h
     \<and> refresh_state_task (snd (async_refresh_state c env h)) = refresh_state_task h
     \<and> shutdown (snd (async_refresh_state c env h))
     \<and> entities (snd (hub_update_state c env h)) = entities h
     \<and> entities (snd (async_refresh_state c env h)) = entities h"
  using async_refresh_state_after_shutdown [OF assms, of c env]
    hub_update_state_after_shutdown [OF assms, of c env]
  by simp

text \<open>
  C5, at the input where it fails. The state update raises, so the iteration of the state
  loop raises and the state task has ended with that exception, while its handle stays
  in \<^verbatim>\<open>refresh_state_task\<close>. At the shutdown signal \<^verbatim>\<open>async_shutdown\<close> sets the flag and
  cancels the task, and \<^verbatim>\<open>await self.refresh_state_task\<close> raises the exception again:
  \<^verbatim>\<open>async_shutdown\<close> raises it, neither remover has been called and the client has not been
  closed.
\<close>

theorem C5_shutdown_stops_at_failed_task:
  "fst (async_refresh_state sample_consts dead_task_env running_hub) = Some ServerTimeoutError
   \<and> refresh_state_task
       (snd (async_refresh_state sample_consts dead_task_env running_hub)) = Some 0
   \<and> fst (async_shutdown dead_task_env running_hub) = Some ServerTimeoutError
   \<and> shutdown (snd (async_shutdown dead_task_env running_hub))
   \<and> hass (snd (async_shutdown dead_task_env running_hub)) =
       [Create_task (Coroutine Cb_async_refresh_state),
        Call_later 3600 Cb_refresh_60m, Call_later 300 Cb_refresh_5m,
        Task_cancel 0, Task_await 0]
   \<and> calls (indego (snd (async_shutdown dead_task_env running_hub))) = []"
proof -
  have r: "respond dead_task_env (update_state True 300) cl = Inl ServerTimeoutError" for cl
    by (simp add: dead_task_env_def raising_def)
  have "hub_update_state sample_consts dead_task_env running_hub =
          (Some ServerTimeoutError, snd (await_indego dead_task_env (update_state True 300)
             running_hub))"
    by (simp add: hub_update_state_def await_indego_def r)
  then have loop: "async_refresh_state sample_consts dead_task_env running_hub =
          (Some ServerTimeoutError, snd (await_indego dead_task_env (update_state True 300)
             running_hub))"
    by (simp add: async_refresh_state_def)
  have task: "refresh_state_task running_hub = Some 0"
    by (simp add: running_hub_def)
  have dead: "task_outcome dead_task_env 0 = Some ServerTimeoutError"
    by (simp add: dead_task_env_def)
  have "refresh_state_task
          (snd (async_refresh_state sample_consts dead_task_env running_hub)) = Some 0"
    using loop task by simp
  moreover have "hass running_hub =
      [Create_task (Coroutine Cb_async_refresh_state),
       Call_later 3600 Cb_refresh_60m, Call_later 300 Cb_refresh_5m]"
    and "calls (indego running_hub) = []"
    by (simp_all add: running_hub_def sample_hub_def sample_client_def)
  ultimately show ?thesis
    using loop async_shutdown_raises [OF task dead] by simp
qed

section \<open>Long polling\<close>

lemma async_send_command_calls:
  "calls (indego (snd (async_send_command c env d h))) =
     calls (indego h)
     @ put_command (case d (val c CONF_SEND_COMMAND) of
                      Some v \<Rightarrow> v | None \<Rightarrow> DEFAULT_NAME_COMMANDS c)
     # (if fst (await_indego env
                  (put_command (case d (val c CONF_SEND_COMMAND) of
                                  Some v \<Rightarrow> v | None \<Rightarrow> DEFAULT_NAME_COMMANDS c)) h) = None
        then [update_state True 300] else [])"
proof -
  let ?a = "put_command (case d (val c CONF_SEND_COMMAND) of
                           Some v \<Rightarrow> v | None \<Rightarrow> DEFAULT_NAME_COMMANDS c)"
  obtain r h1 where aw: "await_indego env ?a h = (r, h1)" by (cases "await_indego env ?a h")
  have c1: "calls (indego h1) = calls (indego h) @ [?a]"
    using await_indego_calls [of env ?a h] aw by simp
  obtain r2 h2 where u: "hub_update_state c env h1 = (r2, h2)"
    by (cases "hub_update_state c env h1")
  have c2: "calls (indego h2) = calls (indego h1) @ [update_state True 300]"
    using hub_update_state_calls [of c env h1] u by simp
  show ?thesis
    using aw c1 u c2
    by (cases r; cases r2) (simp_all add: async_send_command_def Let_def)
qed

lemma async_send_smartmowing_calls:
  "calls (indego (snd (async_send_smartmowing c env d h))) =
     calls (indego h)
     @ put_mow_mode (case d (val c CONF_SMARTMOWING) of
                       Some v \<Rightarrow> v | None \<Rightarrow> DEFAULT_NAME_COMMANDS c)
     # (if fst (await_indego env
                  (put_mow_mode (case d (val c CONF_SMARTMOWING) of
                                   Some v \<Rightarrow> v | None \<Rightarrow> DEFAULT_NAME_COMMANDS c)) h) = None
        then [update_generic_data] else [])"
proof -
  let ?a = "put_mow_mode (case d (val c CONF_SMARTMOWING) of
                            Some v \<Rightarrow> v | None \<Rightarrow> DEFAULT_NAME_COMMANDS c)"
  obtain r h1 where aw: "await_indego env ?a h = (r, h1)" by (cases "await_indego env ?a h")
  have c1: "calls (indego h1) = calls (indego h) @ [?a]"
    using await_indego_calls [of env ?a h] aw by simp
  obtain r2 h2 where u: "hub_update_generic_data c env h1 = (r2, h2)"
    by (cases "hub_update_generic_data c env h1")
  have c2: "calls (indego h2) = calls (indego h1) @ [update_generic_data]"
    using hub_update_generic_data_calls [of c env h1] u by simp
  show ?thesis
    using aw c1 u c2
    by (cases r; cases r2) (simp_all add: async_send_smartmowing_def Let_def)
qed

text \<open>
  C7. \<^verbatim>\<open>_update_state\<close> makes exactly one call to the client, and that call is
  \<^verbatim>\<open>update_state(longpoll=True, longpoll_timeout=300)\<close>; so the state update of an iteration
  of the state loop and the one of the send-command service are long polls with that
  timeout.
\<close>

theorem C7_state_refresh_is_long_poll:
  "calls (indego (snd (hub_update_state c env h))) = calls (indego h) @ [update_state True 300]
   \<and> (\<exists>rest. calls (indego (snd (async_refresh_state c env h))) =
                calls (indego h) @ update_state True 300 # rest
              \<and> set rest \<subseteq> {update_operating_data})
   \<and> (\<exists>v rest. calls (indego (snd (async_send_command c env d h))) =
                  calls (indego h) @ put_command v # rest
                \<and> set rest \<subseteq> {update_state True 300})"
proof -
  have a: "\<exists>rest. calls (indego (snd (async_refresh_state c env h))) =
                calls (indego h) @ update_state True 300 # rest
              \<and> set rest \<subseteq> {update_operating_data}"
    using async_refresh_state_calls [of c env h] by auto
  have b: "\<exists>v rest. calls (indego (snd (async_send_command c env d h))) =
                  calls (indego h) @ put_command v # rest
                \<and> set rest \<subseteq> {update_state True 300}"
    using async_send_command_calls [of c env d h] by auto
  from hub_update_state_calls [of c env h] a b show ?thesis by simp
qed

theorem C7_state_refresh_is_long_poll_witness:
  "calls (indego (snd (hub_update_state sample_consts sample_env sample_hub))) =
     [update_state True 300]"
  using C7_state_refresh_is_long_poll [of sample_consts sample_env sample_hub]
  by (simp add: sample_hub_def sample_client_def)

section \<open>Setup, login and the services\<close>

lemma registered_services_append:
  "registered_services (xs @ ys) = registered_services xs @ registered_services ys"
  by (induction xs rule: registered_services.induct) simp_all

lemma fold_host:
  "hass (fold (\<lambda>x. host (f x)) xs h) = hass h @ map f xs"
  by (induction xs arbitrary: h) simp_all

lemma registered_services_tasks:
  "registered_services (map (\<lambda>x. Create_task (f x)) xs) = []"
  by (induction xs) simp_all

lemma setup_rest_hass:
  "hass (setup_rest c retry_login h) =
     hass h
     @ [Listen_once EVENT_HOMEASSISTANT_STARTED (if retry_login then Cb_login else Cb_initial_update),
        Listen_once EVENT_HOMEASSISTANT_STOP Cb_async_shutdown]
     @ map (\<lambda>comp. Create_task (Load_platform comp (val c DOMAIN))) (INDEGO_COMPONENTS c)
     @ [Register_service (val c DOMAIN) (val c SERVICE_NAME_COMMAND) Cb_async_send_command
          [(Required (val c CONF_SEND_COMMAND), cv_string)],
        Register_service (val c DOMAIN) (val c SERVICE_NAME_SMARTMOW) Cb_async_send_smartmowing
          [(Required (val c CONF_SMARTMOWING), cv_string)]]"
  by (simp add: setup_rest_def Let_def fold_host async_schedule_updates_def
      SERVICE_SCHEMA_COMMAND_def SERVICE_SCHEMA_SMARTMOWING_def)

lemma setup_rest_services:
  "registered_services (hass (setup_rest c retry_login h)) =
     registered_services (hass h)
     @ [Register_service (val c DOMAIN) (val c SERVICE_NAME_COMMAND) Cb_async_send_command
          [(Required (val c CONF_SEND_COMMAND), cv_string)],
        Register_service (val c DOMAIN) (val c SERVICE_NAME_SMARTMOW) Cb_async_send_smartmowing
          [(Required (val c CONF_SMARTMOWING), cv_string)]]"
  by (simp add: setup_rest_hass registered_services_append registered_services_tasks)

lemma IndegoHub_hass: "IndegoHub c env name user pw ser poll hass0 = Inr h \<Longrightarrow> hass h = hass0"
  by (auto simp: IndegoHub_def split: sum.splits)

lemma async_setup_cases:
  obtains (no_hub) e where "async_setup c env hass0 conf = Inl e"
  | (logged_in) component h1 where
      "IndegoHub c env (cfg_name conf) (cfg_username conf) (cfg_password conf) (cfg_id conf)
         (cfg_polling conf) hass0 = Inr component"
      "await_indego env login component = (None, h1)"
      "async_setup c env hass0 conf = Inr (True, setup_rest c False h1)"
  | (rejected) component e h1 where
      "IndegoHub c env (cfg_name conf) (cfg_username conf) (cfg_password conf) (cfg_id conf)
         (cfg_polling conf) hass0 = Inr component"
      "await_indego env login component = (Some e, h1)"
      "e = ClientResponseError \<or> e = TooManyRedirects"
      "async_setup c env hass0 conf = Inr (False, h1)"
  | (timed_out) component h1 where
      "IndegoHub c env (cfg_name conf) (cfg_username conf) (cfg_password conf) (cfg_id conf)
         (cfg_polling conf) hass0 = Inr component"
      "await_indego env login component = (Some ServerTimeoutError, h1)"
      "async_setup c env hass0 conf = Inr (True, setup_rest c True h1)"
proof (cases "IndegoHub c env (cfg_name conf) (cfg_username conf) (cfg_password conf)
                (cfg_id conf) (cfg_polling conf) hass0")
  case (Inl e)
  then show ?thesis by (intro no_hub [of e]) (simp add: async_setup_def)
next
  case (Inr component)
  obtain r h1 where aw: "await_indego env login component = (r, h1)"
    by (cases "await_indego env login component")
  show ?thesis
  proof (cases r)
    case None
    with Inr aw show ?thesis
      by (intro logged_in [of component h1]) (simp_all add: async_setup_def)
  next
    case (Some e)
    consider "e = ClientResponseError \<or> e = TooManyRedirects" | "e = ServerTimeoutError"
      | "e \<noteq> ClientResponseError" "e \<noteq> TooManyRedirects" "e \<noteq> ServerTimeoutError"
      by blast
    then show ?thesis
    proof cases
      case 1
      with Inr aw Some show ?thesis
        by (intro rejected [of component e h1]) (auto simp: async_setup_def)
    next
      case 2
      with Inr aw Some show ?thesis
        by (intro timed_out [of component h1]) (simp_all add: async_setup_def)
    next
      case 3
      with Inr aw Some show ?thesis
        by (intro no_hub [of e]) (simp add: async_setup_def)
    qed
  qed
qed

lemma async_setup_services:
  "async_setup c env hass0 conf = Inr (b, h') \<Longrightarrow>
     registered_services (hass h') =
       registered_services hass0
       @ (if b then
            [Register_service (val c DOMAIN) (val c SERVICE_NAME_COMMAND) Cb_async_send_command
               [(Required (val c CONF_SEND_COMMAND), cv_string)],
             Register_service (val c DOMAIN) (val c SERVICE_NAME_SMARTMOW)
               Cb_async_send_smartmowing [(Required (val c CONF_SMARTMOWING), cv_string)]]
          else [])"
proof (cases rule: async_setup_cases [of c env hass0 conf])
  case (no_hub e)
  assume "async_setup c env hass0 conf = Inr (b, h')"
  with no_hub show ?thesis by simp
next
  case (logged_in component h1)
  assume a: "async_setup c env hass0 conf = Inr (b, h')"
  have "hass h1 = hass0"
    using await_indego_frame(1) [of env login component] logged_in(2)
      IndegoHub_hass [OF logged_in(1)] by simp
  with a logged_in(3) show ?thesis by (auto simp: setup_rest_services)
next
  case (rejected component e h1)
  assume a: "async_setup c env hass0 conf = Inr (b, h')"
  have "hass h1 = hass0"
    using await_indego_frame(1) [of env login component] rejected(2)
      IndegoHub_hass [OF rejected(1)] by simp
  with a rejected(4) show ?thesis by auto
next
  case (timed_out component h1)
  assume a: "async_setup c env hass0 conf = Inr (b, h')"
  have "hass h1 = hass0"
    using await_indego_frame(1) [of env login component] timed_out(2)
      IndegoHub_hass [OF timed_out(1)] by simp
  with a timed_out(3) show ?thesis by (auto simp: setup_rest_services)
qed

lemma hub_login_outcomes:
  "hub_login env h =
     (case respond env login (indego h) of
        Inr cl \<Rightarrow>
          (None, host (Create_task (Bound_method Cb_initial_update))
                   (snd (await_indego env login h)))
      | Inl e \<Rightarrow>
          if e = ClientResponseError \<or> e = TooManyRedirects then
            (None, host (Create_task (Bound_method Cb_initial_update))
                     (snd (await_indego env login h)))
          else if e = ServerTimeoutError then
            (None, host (Call_later 60 Cb_login) (snd (await_indego env login h)))
          else (Some UnboundLocalError, snd (await_indego env login h)))"
  by (simp add: hub_login_def await_indego_def Let_def split: sum.splits)

lemma hub_login_timeout_retries:
  assumes "respond env login (indego h) = Inl ServerTimeoutError"
  shows "hass (snd (hub_login env h)) = hass h @ [Call_later 60 Cb_login]"
  using assms by (simp add: hub_login_outcomes)

lemma hub_login_auth_error_stops:
  assumes "respond env login (indego h) = Inl ClientResponseError"
  shows "hass (snd (hub_login env h)) = hass h @ [Create_task (Bound_method Cb_initial_update)]"
  using assms by (simp add: hub_login_outcomes)

lemma async_setup_timeout_retries:
  assumes "IndegoHub c env (cfg_name conf) (cfg_username conf) (cfg_password conf)
             (cfg_id conf) (cfg_polling conf) hass0 = Inr component"
    and "respond env login (indego component) = Inl ServerTimeoutError"
  shows "\<exists>h'. async_setup c env hass0 conf = Inr (True, h')
           \<and> Listen_once EVENT_HOMEASSISTANT_STARTED Cb_login \<in> set (hass h')"
  using assms by (simp add: async_setup_def await_indego_def setup_rest_hass)

lemma async_setup_auth_error_fails:
  assumes "IndegoHub c env (cfg_name conf) (cfg_username conf) (cfg_password conf)
             (cfg_id conf) (cfg_polling conf) hass0 = Inr component"
    and "respond env login (indego component) = Inl ClientResponseError"
  shows "\<exists>h'. async_setup c env hass0 conf = Inr (False, h') \<and> hass h' = hass0"
  using assms IndegoHub_hass [OF assms(1)] by (simp add: async_setup_def await_indego_def)

lemma sample_hub_configured:
  "IndegoHub sample_consts env (cfg_name sample_config) (cfg_username sample_config)
     (cfg_password sample_config) (cfg_id sample_config) (cfg_polling sample_config) [] =
   Inr (sample_hub\<lparr>indego := (new_client env)\<lparr>calls := []\<rparr>\<rparr>)"
  by (simp add: IndegoHub_def sample_entities_eq sample_hub_def sample_config_def)

text \<open>
  C2, at the input where it fails. aiohttp derives \<^verbatim>\<open>TooManyRedirects\<close> from
  \<^verbatim>\<open>ClientResponseError\<close>, and both \<^verbatim>\<open>try\<close> statements list
  \<^verbatim>\<open>except ClientResponseError\<close> first. A login that raises \<^verbatim>\<open>TooManyRedirects\<close> therefore
  makes \<^verbatim>\<open>async_setup\<close> return \<open>False\<close> with nothing registered at the host, and makes
  \<^verbatim>\<open>_login\<close> go on to the initial update without scheduling another login.
\<close>

theorem C2_too_many_redirects_not_retried:
  "(case async_setup sample_consts (raising login TooManyRedirects) [] sample_config of
      Inl e \<Rightarrow> None
    | Inr (b, h) \<Rightarrow> Some (b, hass h)) = Some (False, [])
   \<and> fst (hub_login (raising login TooManyRedirects) sample_hub) = None
   \<and> hass (snd (hub_login (raising login TooManyRedirects) sample_hub)) =
       [Create_task (Bound_method Cb_initial_update)]"
proof -
  have r: "respond (raising login TooManyRedirects) login cl = Inl TooManyRedirects" for cl
    by (simp add: raising_def)
  have "async_setup sample_consts (raising login TooManyRedirects) [] sample_config =
          Inr (False, snd (await_indego (raising login TooManyRedirects) login
                 (sample_hub\<lparr>indego := (new_client (raising login TooManyRedirects))
                                 \<lparr>calls := []\<rparr>\<rparr>)))"
    by (simp add: async_setup_def sample_hub_configured await_indego_def r)
  then have res: "(case async_setup sample_consts (raising login TooManyRedirects) []
                        sample_config of
                       Inl e \<Rightarrow> None
                     | Inr (b, h) \<Rightarrow> Some (b, hass h)) = Some (False, [])"
    by (simp add: sample_hub_def)
  have "hub_login (raising login TooManyRedirects) sample_hub =
          (None, host (Create_task (Bound_method Cb_initial_update))
                   (snd (await_indego (raising login TooManyRedirects) login sample_hub)))"
    by (simp add: hub_login_outcomes r)
  then have "fst (hub_login (raising login TooManyRedirects) sample_hub) = None"
    and "hass (snd (hub_login (raising login TooManyRedirects) sample_hub)) =
           [Create_task (Bound_method Cb_initial_update)]"
    by (simp_all add: sample_hub_def)
  with res show ?thesis by simp
qed

text \<open>
  C6. A setup that returns \<open>True\<close> registers two services and no other: the send-command
  service and the smart-mowing service, each with a schema of one required key validated
  as a string; a setup that returns \<open>False\<close> registers none. The send-command handler passes
  the string under its key to the client's \<^verbatim>\<open>put_command\<close> and, when that returns, runs
  \<^verbatim>\<open>_update_state\<close>; the smart-mowing handler passes its string to \<^verbatim>\<open>put_mow_mode\<close> and,
  when that returns, runs \<^verbatim>\<open>_update_generic_data\<close>.
\<close>

theorem C6_services:
  "(\<forall>h'. async_setup c env hass0 conf = Inr (True, h') \<longrightarrow>
      registered_services (hass h') =
        registered_services hass0
        @ [Register_service (val c DOMAIN) (val c SERVICE_NAME_COMMAND) Cb_async_send_command
             [(Required (val c CONF_SEND_COMMAND), cv_string)],
           Register_service (val c DOMAIN) (val c SERVICE_NAME_SMARTMOW)
             Cb_async_send_smartmowing [(Required (val c CONF_SMARTMOWING), cv_string)]])
   \<and> (\<forall>h'. async_setup c env hass0 conf = Inr (False, h') \<longrightarrow>
         registered_services (hass h') = registered_services hass0)
   \<and> callback_body c env d Cb_async_send_command = async_send_command c env d
   \<and> callback_body c env d Cb_async_send_smartmowing = async_send_smartmowing c env d
   \<and> (d (val c CONF_SEND_COMMAND) = Some v \<longrightarrow>
         calls (indego (snd (async_send_command c env d h))) =
           calls (indego h) @ put_command v #
             (if fst (await_indego env (put_command v) h) = None then [update_state True 300]
              else [])
         \<and> (fst (await_indego env (put_command v) h) = None \<longrightarrow>
              async_send_command c env d h =
                hub_update_state c env (snd (await_indego env (put_command v) h))))
   \<and> (d (val c CONF_SMARTMOWING) = Some v \<longrightarrow>
         calls (indego (snd (async_send_smartmowing c env d h))) =
           calls (indego h) @ put_mow_mode v #
             (if fst (await_indego env (put_mow_mode v) h) = None then [update_generic_data]
              else [])
         \<and> (fst (await_indego env (put_mow_mode v) h) = None \<longrightarrow>
              async_send_smartmowing c env d h =
                hub_update_generic_data c env (snd (await_indego env (put_mow_mode v) h))))"
proof -
  have reg: "\<forall>h'. async_setup c env hass0 conf = Inr (True, h') \<longrightarrow>
      registered_services (hass h') =
        registered_services hass0
        @ [Register_service (val c DOMAIN) (val c SERVICE_NAME_COMMAND) Cb_async_send_command
             [(Required (val c CONF_SEND_COMMAND), cv_string)],
           Register_service (val c DOMAIN) (val c SERVICE_NAME_SMARTMOW)
             Cb_async_send_smartmowing [(Required (val c CONF_SMARTMOWING), cv_string)]]"
    using async_setup_services [of c env hass0 conf True] by simp
  have none: "\<forall>h'. async_setup c env hass0 conf = Inr (False, h') \<longrightarrow>
         registered_services (hass h') = registered_services hass0"
    using async_setup_services [of c env hass0 conf False] by simp
  have then_state: "async_send_command c env d h =
                hub_update_state c env (snd (await_indego env (put_command v) h))"
    if key: "d (val c CONF_SEND_COMMAND) = Some v"
      and sent: "fst (await_indego env (put_command v) h) = None"
  proof -
    obtain h1 where "await_indego env (put_command v) h = (None, h1)"
      using sent by (cases "await_indego env (put_command v) h") simp
    with key show ?thesis
      by (cases "hub_update_state c env h1"; cases "fst (hub_update_state c env h1)")
        (simp_all add: async_send_command_def)
  qed
  have then_generic: "async_send_smartmowing c env d h =
                hub_update_generic_data c env (snd (await_indego env (put_mow_mode v) h))"
    if key: "d (val c CONF_SMARTMOWING) = Some v"
      and sent: "fst (await_indego env (put_mow_mode v) h) = None"
  proof -
    obtain h1 where "await_indego env (put_mow_mode v) h = (None, h1)"
      using sent by (cases "await_indego env (put_mow_mode v) h") simp
    with key show ?thesis
      by (cases "hub_update_generic_data c env h1";
          cases "fst (hub_update_generic_data c env h1)")
        (simp_all add: async_send_smartmowing_def)
  qed
  from reg none then_state then_generic
    async_send_command_calls [of c env d h] async_send_smartmowing_calls [of c env d h]
  show ?thesis by simp
qed

theorem C6_services_witness:
  "(\<exists>h'. async_setup sample_consts sample_env [] sample_config = Inr (True, h')
      \<and> registered_services (hass h') =
          [Register_service ''indego'' ''command'' Cb_async_send_command
             [(Required ''command'', cv_string)],
           Register_service ''indego'' ''smartmowing'' Cb_async_send_smartmowing
             [(Required ''enable'', cv_string)]])
   \<and> [''command'' \<mapsto> VStr ''mow''] (val sample_consts CONF_SEND_COMMAND) = Some (VStr ''mow'')
   \<and> calls (indego (snd (async_send_command sample_consts sample_env
               [''command'' \<mapsto> VStr ''mow''] sample_hub))) =
       [put_command (VStr ''mow''), update_state True 300]
   \<and> [''enable'' \<mapsto> VStr ''true''] (val sample_consts CONF_SMARTMOWING) = Some (VStr ''true'')
   \<and> calls (indego (snd (async_send_smartmowing sample_consts sample_env
               [''enable'' \<mapsto> VStr ''true''] sample_hub))) =
       [put_mow_mode (VStr ''true''), update_generic_data]"
proof -
  have v: "val sample_consts CONF_SEND_COMMAND = ''command''"
    "val sample_consts CONF_SMARTMOWING = ''enable''"
    "val sample_consts DOMAIN = ''indego''"
    "val sample_consts SERVICE_NAME_COMMAND = ''command''"
    "val sample_consts SERVICE_NAME_SMARTMOW = ''smartmowing''"
    by (simp_all add: sample_consts_def sample_val_def)
  have s: "\<exists>h'. async_setup sample_consts sample_env [] sample_config = Inr (True, h')"
    by (simp add: async_setup_def sample_hub_configured await_indego_def sample_env_def)
  have a: "fst (await_indego sample_env a sample_hub) = None" for a
    by (simp add: await_indego_def sample_env_def)
  have e: "calls (indego sample_hub) = []" by (simp add: sample_hub_def sample_client_def)
  show ?thesis
    using s v a e
      C6_services [of sample_consts sample_env "[]" sample_config
        "[''command'' \<mapsto> VStr ''mow'']" "VStr ''mow''" sample_hub]
      C6_services [of sample_consts sample_env "[]" sample_config
        "[''enable'' \<mapsto> VStr ''true'']" "VStr ''true''" sample_hub]
    by auto
qed

end
